theory Spec2Isabelle
  imports Complex_Main
begin

section \<open>Conventions of the embedding\<close>

text \<open>
  The repository is a browser application: \<^verbatim>\<open>gestureController.js\<close> turns hand landmarks
  into gesture events, \<^verbatim>\<open>starfield.js\<close> owns the pickable meshes and their highlight, and
  \<^verbatim>\<open>main.js\<close> maps the events to camera state.

  A JavaScript number is modelled as a \<^typ>\<open>real\<close>: arithmetic is exact, there is no
  rounding, no infinity and no NaN. Rounding is modelled apart, in the section on the
  arithmetic of the language, for the property it decides. An array is a list; reading an index out of range
  yields \<^verbatim>\<open>undefined\<close>, modelled by \<open>None\<close>, and reading a property of
  \<^verbatim>\<open>undefined\<close> throws a \<^verbatim>\<open>TypeError\<close>, modelled by \<open>Inl TypeError\<close>.
\<close>

datatype js_error = TypeError | LoadError

definition elem_at :: "'a list \<Rightarrow> nat \<Rightarrow> 'a option" where
  "elem_at xs i = (if i < length xs then Some (xs ! i) else None)"

section \<open>Geometry utilities\<close>

text \<open>
  A landmark is an object \<^verbatim>\<open>{x, y, z}\<close>; the source reads \<^verbatim>\<open>z\<close> as
  \<^verbatim>\<open>a.z ?? 0\<close>, so the field may be absent.
\<close>

record landmark =
  lm_x :: real
  lm_y :: real
  lm_z :: "real option"

definition z_or_0 :: "landmark \<Rightarrow> real" where
  "z_or_0 a = (case lm_z a of None \<Rightarrow> 0 | Some v \<Rightarrow> v)"

definition FINGER_TIPS :: "nat list" where
  "FINGER_TIPS = [4, 8, 12, 16, 20]"

definition FINGER_PIPS :: "nat list" where
  "FINGER_PIPS = [3, 6, 10, 14, 18]"

definition FINGER_MCP :: "nat list" where
  "FINGER_MCP = [2, 5, 9, 13, 17]"

definition lerp :: "real \<Rightarrow> real \<Rightarrow> real \<Rightarrow> real" where
  "lerp current target smoothing = current + (target - current) * smoothing"

definition distance3 :: "landmark \<Rightarrow> landmark \<Rightarrow> real" where
  "distance3 a b =
     (let dx = lm_x a - lm_x b;
          dy = lm_y a - lm_y b;
          dz = z_or_0 a - z_or_0 b
      in sqrt (dx * dx + dy * dy + dz * dz))"

definition dot3 :: "landmark \<Rightarrow> landmark \<Rightarrow> real" where
  "dot3 a b = lm_x a * lm_x b + lm_y a * lm_y b + z_or_0 a * z_or_0 b"

definition subtract3 :: "landmark \<Rightarrow> landmark \<Rightarrow> landmark" where
  "subtract3 a b =
     \<lparr>lm_x = lm_x a - lm_x b, lm_y = lm_y a - lm_y b, lm_z = Some (z_or_0 a - z_or_0 b)\<rparr>"

section \<open>Finger-state extraction\<close>

text \<open>
  One iteration of the loop of \<^verbatim>\<open>computeFingerStates\<close>: the three landmarks are read
  (possibly \<^verbatim>\<open>undefined\<close>), and \<^verbatim>\<open>subtract3\<close> throws on an undefined operand.
\<close>

definition fingerExtended :: "landmark list \<Rightarrow> nat \<Rightarrow> js_error + bool" where
  "fingerExtended worldLandmarks i =
     (let tipIndex = FINGER_TIPS ! i;
          pipIndex = FINGER_PIPS ! i;
          mcpIndex = FINGER_MCP ! i
      in case (elem_at worldLandmarks tipIndex, elem_at worldLandmarks pipIndex, elem_at worldLandmarks mcpIndex) of
           (Some tip, Some pip, Some mcp) \<Rightarrow>
             (let v1 = subtract3 tip pip;
                  v2 = subtract3 mcp pip;
                  dot = dot3 v1 v2
              in Inr (dot < - 0.015))
         | _ \<Rightarrow> Inl TypeError)"

fun computeFingerStates_loop ::
  "landmark list \<Rightarrow> nat list \<Rightarrow> bool list \<Rightarrow> js_error + bool list" where
  "computeFingerStates_loop worldLandmarks [] states = Inr states"
| "computeFingerStates_loop worldLandmarks (i # rest) states =
     (case fingerExtended worldLandmarks i of
        Inl e \<Rightarrow> Inl e
      | Inr b \<Rightarrow> computeFingerStates_loop worldLandmarks rest (states @ [b]))"

definition computeFingerStates :: "landmark list \<Rightarrow> js_error + bool list" where
  "computeFingerStates worldLandmarks = computeFingerStates_loop worldLandmarks [0, 1, 2, 3, 4] []"

text \<open>
  The quantity the loop compares with the threshold, for finger \<open>i\<close> of a hand with all
  21 landmarks: \<^verbatim>\<open>dot3(subtract3(tip, pip), subtract3(mcp, pip))\<close>.
\<close>

definition bendDot :: "landmark list \<Rightarrow> nat \<Rightarrow> real" where
  "bendDot worldLandmarks i =
     dot3 (subtract3 (worldLandmarks ! (FINGER_TIPS ! i)) (worldLandmarks ! (FINGER_PIPS ! i)))
          (subtract3 (worldLandmarks ! (FINGER_MCP ! i)) (worldLandmarks ! (FINGER_PIPS ! i)))"

text \<open>Multiplying every coordinate of a landmark by a factor.\<close>

definition scaleLandmark :: "real \<Rightarrow> landmark \<Rightarrow> landmark" where
  "scaleLandmark k a =
     \<lparr>lm_x = k * lm_x a, lm_y = k * lm_y a, lm_z = map_option (\<lambda>v. k * v) (lm_z a)\<rparr>"

section \<open>Openness\<close>

fun computeOpenness_sum ::
  "landmark list \<Rightarrow> landmark option \<Rightarrow> nat list \<Rightarrow> real \<Rightarrow> js_error + real" where
  "computeOpenness_sum worldLandmarks wrist [] acc = Inr acc"
| "computeOpenness_sum worldLandmarks wrist (index # rest) acc =
     (case (wrist, elem_at worldLandmarks index) of
        (Some w, Some tip) \<Rightarrow> computeOpenness_sum worldLandmarks wrist rest (acc + distance3 w tip)
      | _ \<Rightarrow> Inl TypeError)"

definition computeOpenness :: "landmark list \<Rightarrow> js_error + real" where
  "computeOpenness worldLandmarks =
     (let wrist = elem_at worldLandmarks 0;
          tipIndices = [8, 12, 16, 20]
      in case computeOpenness_sum worldLandmarks wrist tipIndices 0 of
           Inl e \<Rightarrow> Inl e
         | Inr acc \<Rightarrow> Inr (acc / real (length tipIndices)))"

section \<open>Gesture classification\<close>

text \<open>
  \<^verbatim>\<open>fingerStates[i]\<close> used as a condition: an index out of range reads
  \<^verbatim>\<open>undefined\<close>, which is falsy.
\<close>

definition truthy_at :: "bool list \<Rightarrow> nat \<Rightarrow> bool" where
  "truthy_at fingerStates i = (case elem_at fingerStates i of None \<Rightarrow> False | Some b \<Rightarrow> b)"

definition determineGesture :: "bool list \<Rightarrow> string" where
  "determineGesture fingerStates =
     (let extendedCount = length (filter (\<lambda>b. b) fingerStates)
      in if extendedCount \<ge> 4 then ''open''
         else if extendedCount = 0 then ''fist''
         else if truthy_at fingerStates 1 \<and> \<not> truthy_at fingerStates 0 \<and> \<not> truthy_at fingerStates 2
                 \<and> \<not> truthy_at fingerStates 3 \<and> \<not> truthy_at fingerStates 4
              then ''point''
         else ''neutral'')"

section \<open>Zoom mapping (main.js)\<close>

text \<open>The values of \<^verbatim>\<open>CONFIG.gesture\<close> and \<^verbatim>\<open>CONFIG.camera\<close> that the mapping reads.\<close>

definition minOpenness :: real where "minOpenness = 0.055"
definition maxOpenness :: real where "maxOpenness = 0.16"
definition minRadius :: real where "minRadius = 28"
definition maxRadius :: real where "maxRadius = 86"

definition mapOpennessToRadius :: "real \<Rightarrow> real" where
  "mapOpennessToRadius openness =
     (let clamped = min (max openness minOpenness) maxOpenness;
          ratio = (clamped - minOpenness) / (maxOpenness - minOpenness)
      in minRadius + ratio * (maxRadius - minRadius))"

section \<open>Temporal smoothing\<close>

text \<open>
  The default of \<^verbatim>\<open>options.smoothingFactor\<close>. The smoothing itself is part of
  \<^verbatim>\<open>_analyzeLandmarks\<close>, modelled with the controller below.
\<close>

definition defaultSmoothingFactor :: real where
  "defaultSmoothingFactor = 0.28"

section \<open>Gesture controller\<close>

text \<open>
  An object \<^verbatim>\<open>{x, y}\<close>, the values a payload field can hold, and the payload of an
  event as the list of its fields in the order the object literal writes them. The two
  message texts of the source are named, not spelled: \<open>MsgGestureReady\<close> is the status
  text emitted once the model is loaded, \<open>MsgModelNotLoaded\<close> the text of the error
  raised when a frame finds no model.
\<close>

record point2 =
  pt_x :: real
  pt_y :: real

datatype message = MsgGestureReady | MsgModelNotLoaded

datatype js_value =
    JString string
  | JBoolean bool
  | JNumber real
  | JPoint point2
  | JBooleans "bool list"
  | JMessage message

type_synonym payload = "(string \<times> js_value) list"

type_synonym emission = "string \<times> payload"

text \<open>
  What the detector returns for a frame (\<^verbatim>\<open>results.landmarks\<close>, possibly undefined, and
  \<^verbatim>\<open>results.worldLandmarks\<close>: one entry per detected hand), and what a frame callback
  reads from the video element and the detector.
\<close>

record detection =
  det_landmarks :: "landmark list list option"
  det_worldLandmarks :: "landmark list list"

record video_frame =
  currentTime :: real
  videoWidth :: nat
  videoHeight :: nat
  vf_results :: detection

text \<open>
  The callbacks the controller hands to \<^verbatim>\<open>requestAnimationFrame\<close>: the closure
  \<^verbatim>\<open>processFrame\<close> and the bound method \<^verbatim>\<open>_loop\<close>.
\<close>

datatype callback = CbProcessFrame | CbLoop

datatype completion = Normal | Threw js_error

text \<open>
  The fields of a \<^verbatim>\<open>GestureController\<close>. \<open>model\<close> and \<open>ctx\<close> record whether
  \<^verbatim>\<open>this.model\<close> and \<^verbatim>\<open>this.ctx\<close> are non-null; \<open>scheduled\<close> is the browser's
  queue of animation-frame callbacks of this controller. The listener table is modelled
  on its own further down; here a call of \<^verbatim>\<open>_emit\<close> is recorded as an emission.
\<close>

record controller =
  running :: bool
  ready :: bool
  model :: bool
  ctx :: bool
  smoothingFactor :: real
  lastVideoTime :: real
  prevHandPosition :: "point2 option"
  smoothed_openness :: real
  smoothed_position :: point2
  scheduled :: "callback list"

text \<open>
  The constructor: \<open>has_ctx\<close> tells whether the canvas gave a 2d context, \<open>option\<close> is
  \<^verbatim>\<open>options.smoothingFactor\<close> when the caller passes one.
\<close>

definition GestureController :: "bool \<Rightarrow> real option \<Rightarrow> controller" where
  "GestureController has_ctx option =
     \<lparr>running = False,
      ready = False,
      model = False,
      ctx = has_ctx,
      smoothingFactor = (case option of None \<Rightarrow> defaultSmoothingFactor | Some f \<Rightarrow> f),
      lastVideoTime = - 1,
      prevHandPosition = None,
      smoothed_openness = 0,
      smoothed_position = \<lparr>pt_x = 0, pt_y = 0\<rparr>,
      scheduled = []\<rparr>"

definition requestAnimationFrame :: "callback \<Rightarrow> controller \<Rightarrow> controller" where
  "requestAnimationFrame cb st = st\<lparr>scheduled := scheduled st @ [cb]\<rparr>"

text \<open>
  \<^verbatim>\<open>initialize\<close>: \<open>failure\<close> is the error the model loader rejects with, if it does.
\<close>

definition initialize ::
  "controller \<Rightarrow> payload option \<Rightarrow> controller \<times> emission list \<times> completion" where
  "initialize st failure =
     (case failure of
        None \<Rightarrow>
          (st\<lparr>model := True, ready := True\<rparr>,
           [(''status'', [(''message'', JMessage MsgGestureReady)])], Normal)
      | Some error \<Rightarrow> (st, [(''error'', error)], Threw LoadError))"

definition loop :: "controller \<Rightarrow> controller" where
  "loop st = (if \<not> running st then st else requestAnimationFrame CbProcessFrame st)"

definition start :: "controller \<Rightarrow> controller" where
  "start st =
     (if \<not> ready st \<or> running st then st
      else loop (st\<lparr>running := True, lastVideoTime := - 1\<rparr>))"

definition stop :: "controller \<Rightarrow> controller" where
  "stop st = st\<lparr>running := False\<rparr>"

definition HAND_CONNECTIONS :: "(nat \<times> nat) list" where
  "HAND_CONNECTIONS =
     [(0, 1), (1, 2), (2, 3), (3, 4), (0, 5), (5, 6), (6, 7), (7, 8), (5, 9), (9, 10),
      (10, 11), (11, 12), (9, 13), (13, 14), (14, 15), (15, 16), (13, 17), (17, 18),
      (18, 19), (19, 20), (0, 17)]"

text \<open>
  \<^verbatim>\<open>_drawDetections\<close> paints the canvas, which is not modelled; what matters to the
  controller is whether it throws: with a context and a hand, it reads \<^verbatim>\<open>.x\<close> of both
  ends of every connection.
\<close>

definition drawDetections :: "controller \<Rightarrow> detection \<Rightarrow> completion" where
  "drawDetections st res =
     (if \<not> ctx st then Normal
      else case det_landmarks res of
             None \<Rightarrow> Normal
           | Some [] \<Rightarrow> Normal
           | Some (landmarks # _) \<Rightarrow>
               (if list_all (\<lambda>(startIdx, endIdx).
                      elem_at landmarks startIdx \<noteq> None \<and> elem_at landmarks endIdx \<noteq> None)
                    HAND_CONNECTIONS
                then Normal else Threw TypeError))"

text \<open>
  \<^verbatim>\<open>_analyzeLandmarks\<close>: the controller after the call and the payload it returns, or
  the controller as far as it was updated when a read of an undefined landmark threw.
\<close>

definition analyzeLandmarks ::
  "controller \<Rightarrow> landmark list \<Rightarrow> landmark list \<Rightarrow> controller \<times> (js_error + payload)" where
  "analyzeLandmarks st landmarks worldLandmarks =
     (case computeFingerStates worldLandmarks of
        Inl e \<Rightarrow> (st, Inl e)
      | Inr fingerStates \<Rightarrow>
     (let gesture = determineGesture fingerStates in
      case computeOpenness worldLandmarks of
        Inl e \<Rightarrow> (st, Inl e)
      | Inr openness \<Rightarrow>
     (let smoothing = smoothingFactor st;
          st1 = st\<lparr>smoothed_openness := lerp (smoothed_openness st) openness smoothing\<rparr>
      in case elem_at landmarks 0 of
        None \<Rightarrow> (st1, Inl TypeError)
      | Some wrist \<Rightarrow>
     (let position = \<lparr>pt_x = 1 - lm_x wrist, pt_y = lm_y wrist\<rparr>;
          st2 = st1\<lparr>smoothed_position :=
                  \<lparr>pt_x = lerp (pt_x (smoothed_position st1)) (pt_x position) smoothing,
                   pt_y = lerp (pt_y (smoothed_position st1)) (pt_y position) smoothing\<rparr>\<rparr>;
          movement =
            (case prevHandPosition st2 of
               None \<Rightarrow> \<lparr>pt_x = 0, pt_y = 0\<rparr>
             | Some prev \<Rightarrow>
                 \<lparr>pt_x = pt_x (smoothed_position st2) - pt_x prev,
                  pt_y = pt_y (smoothed_position st2) - pt_y prev\<rparr>);
          st3 = st2\<lparr>prevHandPosition := Some (smoothed_position st2)\<rparr>
      in case elem_at landmarks 8 of
        None \<Rightarrow> (st3, Inl TypeError)
      | Some indexTip \<Rightarrow>
     (let pointer = \<lparr>pt_x = lm_x indexTip, pt_y = lm_y indexTip\<rparr>
      in (st3,
          Inr [(''gesture'', JString gesture),
               (''present'', JBoolean True),
               (''openness'', JNumber (smoothed_openness st3)),
               (''fingerStates'', JBooleans fingerStates),
               (''position'', JPoint (smoothed_position st3)),
               (''movement'', JPoint movement),
               (''pointer'', JPoint pointer)]))))))"

text \<open>The condition \<^verbatim>\<open>results.landmarks?.length\<close>.\<close>

definition hand_present :: "detection \<Rightarrow> bool" where
  "hand_present res = (case det_landmarks res of None \<Rightarrow> False | Some hands \<Rightarrow> hands \<noteq> [])"

text \<open>
  The closure \<^verbatim>\<open>processFrame\<close> of \<^verbatim>\<open>_loop\<close>, run on what the video element and the
  detector give at that moment. When it throws, nothing is scheduled again.
\<close>

definition processFrame ::
  "controller \<Rightarrow> video_frame \<Rightarrow> controller \<times> emission list \<times> completion" where
  "processFrame st vf =
     (if \<not> model st then
        (st\<lparr>running := False\<rparr>, [(''error'', [(''message'', JMessage MsgModelNotLoaded)])], Normal)
      else if currentTime vf = lastVideoTime st then
        (requestAnimationFrame CbLoop st, [], Normal)
      else
        (let st1 = st\<lparr>lastVideoTime := currentTime vf\<rparr>
         in if videoWidth vf = 0 \<or> videoHeight vf = 0 then
              (requestAnimationFrame CbLoop st1, [], Normal)
            else
              (let res = vf_results vf
               in case drawDetections st1 res of
                    Threw e \<Rightarrow> (st1, [], Threw e)
                  | Normal \<Rightarrow>
                      if hand_present res then
                        (case (det_landmarks res, det_worldLandmarks res) of
                           (Some (landmarks # _), worldLandmarks # _) \<Rightarrow>
                             (case analyzeLandmarks st1 landmarks worldLandmarks of
                                (st2, Inl e) \<Rightarrow> (st2, [], Threw e)
                              | (st2, Inr data) \<Rightarrow>
                                  (requestAnimationFrame CbLoop st2, [(''update'', data)], Normal))
                         | _ \<Rightarrow> (st1, [], Threw TypeError))
                      else
                        (requestAnimationFrame CbLoop (st1\<lparr>prevHandPosition := None\<rparr>),
                         [(''update'', [(''gesture'', JString ''none''), (''present'', JBoolean False)])],
                         Normal))))"

text \<open>
  What can happen to a controller: its public methods are called, or the browser runs
  the oldest animation-frame callback it was handed, with the video and detector state
  of that moment. An exception of a callback is reported by the browser and the
  controller lives on in the state the callback left.
\<close>

datatype event = Initialize "payload option" | Start | Stop | AnimationFrame video_frame

definition step :: "controller \<Rightarrow> event \<Rightarrow> controller \<times> emission list \<times> completion" where
  "step st ev =
     (case ev of
        Initialize failure \<Rightarrow> initialize st failure
      | Start \<Rightarrow> (start st, [], Normal)
      | Stop \<Rightarrow> (stop st, [], Normal)
      | AnimationFrame vf \<Rightarrow>
          (case scheduled st of
             [] \<Rightarrow> (st, [], Normal)
           | cb # rest \<Rightarrow>
               (let st1 = st\<lparr>scheduled := rest\<rparr>
                in case cb of
                     CbProcessFrame \<Rightarrow> processFrame st1 vf
                   | CbLoop \<Rightarrow> (loop st1, [], Normal))))"

fun run :: "controller \<Rightarrow> event list \<Rightarrow> controller \<times> emission list" where
  "run st [] = (st, [])"
| "run st (ev # evs) =
     (case step st ev of
        (st1, out1, _) \<Rightarrow> (case run st1 evs of (st2, out2) \<Rightarrow> (st2, out1 @ out2)))"

text \<open>
  Vocabulary of the claims about frames. A callback \<^emph>\<open>reaches the detector\<close> when it is
  \<^verbatim>\<open>processFrame\<close>, the model is loaded, the video time has advanced and the video has
  a size. A hand is \<^emph>\<open>well formed\<close> when both of its landmark arrays have 21 entries. An
  event is \<^emph>\<open>handless\<close> when it is not a callback run on a detection with a hand.
\<close>

definition reaches_detector :: "controller \<Rightarrow> video_frame \<Rightarrow> bool" where
  "reaches_detector st vf =
     (case scheduled st of
        CbProcessFrame # _ \<Rightarrow>
          model st \<and> currentTime vf \<noteq> lastVideoTime st \<and> videoWidth vf \<noteq> 0 \<and> videoHeight vf \<noteq> 0
      | _ \<Rightarrow> False)"

definition well_formed_hand :: "detection \<Rightarrow> bool" where
  "well_formed_hand res =
     (case (det_landmarks res, det_worldLandmarks res) of
        (Some (landmarks # _), worldLandmarks # _) \<Rightarrow>
          length landmarks = 21 \<and> length worldLandmarks = 21
      | _ \<Rightarrow> False)"

definition handless :: "event \<Rightarrow> bool" where
  "handless ev = (case ev of AnimationFrame vf \<Rightarrow> \<not> hand_present (vf_results vf) | _ \<Rightarrow> True)"

text \<open>
  Vocabulary of the claim about smoothing. The controller smooths three numbers, the
  \<^emph>\<open>channels\<close>: the openness and the two coordinates of the position. The raw
  input of a channel on a frame is what \<^verbatim>\<open>_analyzeLandmarks\<close> feeds to
  \<^verbatim>\<open>lerp\<close> as target: the openness of the world landmarks, and \<open>1 - wrist.x\<close>
  and \<open>wrist.y\<close> of the wrist. The raw input of channel \<open>c\<close> is \<^emph>\<open>held\<close> at \<open>v\<close>
  by an event when the event is a call of a method, or a callback whose video frame
  shows a well-formed hand with raw input \<open>v\<close>. An event \<^emph>\<open>processes\<close> a frame
  when it is a callback that reaches the detector; \<open>frames_processed\<close> counts these
  events along a run.
\<close>

datatype channel = Openness | PositionX | PositionY

definition smoothed_value :: "channel \<Rightarrow> controller \<Rightarrow> real" where
  "smoothed_value c st =
     (case c of
        Openness \<Rightarrow> smoothed_openness st
      | PositionX \<Rightarrow> pt_x (smoothed_position st)
      | PositionY \<Rightarrow> pt_y (smoothed_position st))"

definition raw_value :: "channel \<Rightarrow> landmark list \<Rightarrow> landmark list \<Rightarrow> js_error + real" where
  "raw_value c landmarks worldLandmarks =
     (case c of
        Openness \<Rightarrow> computeOpenness worldLandmarks
      | PositionX \<Rightarrow> (case elem_at landmarks 0 of None \<Rightarrow> Inl TypeError | Some wrist \<Rightarrow> Inr (1 - lm_x wrist))
      | PositionY \<Rightarrow> (case elem_at landmarks 0 of None \<Rightarrow> Inl TypeError | Some wrist \<Rightarrow> Inr (lm_y wrist)))"

definition held :: "channel \<Rightarrow> real \<Rightarrow> event \<Rightarrow> bool" where
  "held c v ev =
     (case ev of
        AnimationFrame vf \<Rightarrow>
          (case (det_landmarks (vf_results vf), det_worldLandmarks (vf_results vf)) of
             (Some (landmarks # _), worldLandmarks # _) \<Rightarrow>
               length landmarks = 21 \<and> length worldLandmarks = 21
               \<and> raw_value c landmarks worldLandmarks = Inr v
           | _ \<Rightarrow> False)
      | _ \<Rightarrow> True)"

definition processes :: "controller \<Rightarrow> event \<Rightarrow> bool" where
  "processes st ev = (case ev of AnimationFrame vf \<Rightarrow> reaches_detector st vf | _ \<Rightarrow> False)"

fun frames_processed :: "controller \<Rightarrow> event list \<Rightarrow> nat" where
  "frames_processed st [] = 0"
| "frames_processed st (ev # evs) =
     (if processes st ev then 1 else 0) + frames_processed (fst (step st ev)) evs"

section \<open>Event listeners\<close>

text \<open>
  \<^verbatim>\<open>this.listeners\<close> is a \<^verbatim>\<open>Map\<close> from event names to \<^verbatim>\<open>Set\<close>s of handlers. A
  handler is a function object, compared by identity: a number stands for it. The set
  is modelled as the language defines it, by its list of entries in insertion order, in
  which \<^verbatim>\<open>delete\<close> leaves an empty slot (so that the positions of the other entries
  stay) and \<^verbatim>\<open>add\<close> appends unless the value is present.
\<close>

type_synonym handler = nat

type_synonym handler_set = "handler option list"

type_synonym listeners = "string \<Rightarrow> handler_set option"

definition Set_add :: "handler_set \<Rightarrow> handler \<Rightarrow> handler_set" where
  "Set_add entries h = (if Some h \<in> set entries then entries else entries @ [Some h])"

definition Set_delete :: "handler_set \<Rightarrow> handler \<Rightarrow> handler_set" where
  "Set_delete entries h = map (\<lambda>e. if e = Some h then None else e) entries"

definition on :: "listeners \<Rightarrow> string \<Rightarrow> handler \<Rightarrow> listeners" where
  "on ls event h =
     (let ls1 = (case ls event of None \<Rightarrow> ls(event \<mapsto> []) | Some _ \<Rightarrow> ls)
      in case ls1 event of
           None \<Rightarrow> ls1
         | Some entries \<Rightarrow> ls1(event \<mapsto> Set_add entries h))"

definition off :: "listeners \<Rightarrow> string \<Rightarrow> handler \<Rightarrow> listeners" where
  "off ls event h =
     (case ls event of
        None \<Rightarrow> ls
      | Some entries \<Rightarrow> ls(event \<mapsto> Set_delete entries h))"

text \<open>
  What a handler does to the controller while it runs: a sequence of calls of
  \<^verbatim>\<open>on\<close> and \<^verbatim>\<open>off\<close>. The behaviour of the handlers is a parameter \<open>behaviour\<close>
  of the emission, giving the calls a handler makes when invoked with a payload.
  Handlers return normally.
\<close>

datatype call = On string handler | Off string handler

fun perform :: "listeners \<Rightarrow> call list \<Rightarrow> listeners" where
  "perform ls [] = ls"
| "perform ls (On event h # cs) = perform (on ls event h) cs"
| "perform ls (Off event h # cs) = perform (off ls event h) cs"

text \<open>
  \<^verbatim>\<open>handlers.forEach\<close> walks the entries by position, reading the list anew at
  every step, skips empty slots and visits entries appended meanwhile. The set object
  of an event is created once and never replaced, so the walk reads it from the table.
  The result is the table afterwards and the handlers invoked, in order; \<open>None\<close> when
  the walk never ends.
\<close>

partial_function (option) forEach ::
  "(handler \<Rightarrow> 'p \<Rightarrow> call list) \<Rightarrow> string \<Rightarrow> 'p \<Rightarrow> listeners \<Rightarrow> nat \<Rightarrow> handler list
     \<Rightarrow> (listeners \<times> handler list) option" where
  "forEach behaviour event payload ls index invoked =
     (case ls event of
        None \<Rightarrow> Some (ls, invoked)
      | Some entries \<Rightarrow>
          if index < length entries then
            (case entries ! index of
               None \<Rightarrow> forEach behaviour event payload ls (index + 1) invoked
             | Some h \<Rightarrow>
                 forEach behaviour event payload (perform ls (behaviour h payload)) (index + 1)
                   (invoked @ [h]))
          else Some (ls, invoked))"

definition emit ::
  "(handler \<Rightarrow> 'p \<Rightarrow> call list) \<Rightarrow> listeners \<Rightarrow> string \<Rightarrow> 'p \<Rightarrow> (listeners \<times> handler list) option" where
  "emit behaviour ls event payload =
     (case ls event of
        None \<Rightarrow> Some (ls, [])
      | Some handlers \<Rightarrow> forEach behaviour event payload ls 0 [])"

text \<open>
  The specification's view of a history of \<^verbatim>\<open>on\<close> and \<^verbatim>\<open>off\<close> calls: the handlers
  registered for an event, in the order of their registration, a handler that is
  registered again while registered keeping its place.
\<close>

fun registration_order :: "handler list \<Rightarrow> call list \<Rightarrow> string \<Rightarrow> handler list" where
  "registration_order hs [] event = hs"
| "registration_order hs (On e h # cs) event =
     registration_order (if e = event \<and> h \<notin> set hs then hs @ [h] else hs) cs event"
| "registration_order hs (Off e h # cs) event =
     registration_order (if e = event then removeAll h hs else hs) cs event"

text \<open>
  The handlers a set holds, in the order of its entries; the handlers the table holds
  for an event; and the handlers whose only effect on the table, when invoked with a
  payload, is to unregister themselves.
\<close>

fun Set_values :: "handler_set \<Rightarrow> handler list" where
  "Set_values [] = []"
| "Set_values (None # es) = Set_values es"
| "Set_values (Some h # es) = h # Set_values es"

definition subscribers :: "listeners \<Rightarrow> string \<Rightarrow> handler list" where
  "subscribers ls event = (case ls event of None \<Rightarrow> [] | Some entries \<Rightarrow> Set_values entries)"

definition self_removal_only :: "(handler \<Rightarrow> 'p \<Rightarrow> call list) \<Rightarrow> 'p \<Rightarrow> handler \<Rightarrow> bool" where
  "self_removal_only behaviour payload h = (\<forall>c \<in> set (behaviour h payload). \<exists>e. c = Off e h)"

section \<open>Highlighting (starfield.js)\<close>

text \<open>
  Meshes and materials are objects with identity: the scene is a store of meshes and a
  store of materials, a mesh pointing to its material (two meshes may share one). A
  colour is its three components; \<^verbatim>\<open>Color.setHex\<close> belongs to the rendering library and
  is a parameter \<open>setHex\<close> of \<open>highlight\<close>. \<open>isHighlighted\<close> tells whether
  \<^verbatim>\<open>userData\<close> has the property of that name.
\<close>

type_synonym colour = "real \<times> real \<times> real"

type_synonym vector3 = "real \<times> real \<times> real"

record material =
  emissive :: colour
  emissiveIntensity :: real

record userData =
  baseEmissive :: "colour option"
  baseEmissiveIntensity :: "real option"
  baseScale :: "vector3 option"
  isHighlighted :: bool

record mesh =
  mesh_material :: "nat option"
  mesh_scale :: vector3
  mesh_userData :: userData

record starfield =
  objects :: "nat \<Rightarrow> mesh"
  materials :: "nat \<Rightarrow> material"
  highlighted :: "nat option"

definition multiplyScalar :: "vector3 \<Rightarrow> real \<Rightarrow> vector3" where
  "multiplyScalar v s = (case v of (x, y, z) \<Rightarrow> (x * s, y * s, z * s))"

definition clearHighlight :: "starfield \<Rightarrow> starfield" where
  "clearHighlight sf =
     (case highlighted sf of
        None \<Rightarrow> sf
      | Some h \<Rightarrow>
          (let material = mesh_material (objects sf h);
               ud = mesh_userData (objects sf h);
               sf1 =
                 (case (material, baseEmissive ud) of
                    (Some m, Some base) \<Rightarrow>
                      (let sf' = sf\<lparr>materials := (materials sf)(m := (materials sf m)\<lparr>emissive := base\<rparr>)\<rparr>
                       in case baseEmissiveIntensity ud of
                            Some intensity \<Rightarrow>
                              sf'\<lparr>materials :=
                                    (materials sf')(m := (materials sf' m)\<lparr>emissiveIntensity := intensity\<rparr>)\<rparr>
                          | None \<Rightarrow> sf')
                  | _ \<Rightarrow> sf);
               sf2 =
                 (case baseScale ud of
                    Some base \<Rightarrow> sf1\<lparr>objects := (objects sf1)(h := (objects sf1 h)\<lparr>mesh_scale := base\<rparr>)\<rparr>
                  | None \<Rightarrow> sf1);
               sf3 =
                 sf2\<lparr>objects :=
                       (objects sf2)(h := (objects sf2 h)
                          \<lparr>mesh_userData := (mesh_userData (objects sf2 h))\<lparr>isHighlighted := False\<rparr>\<rparr>)\<rparr>
           in sf3\<lparr>highlighted := None\<rparr>))"

definition highlight :: "(nat \<Rightarrow> colour) \<Rightarrow> starfield \<Rightarrow> nat option \<Rightarrow> starfield" where
  "highlight setHex sf object =
     (case object of
        None \<Rightarrow> clearHighlight sf
      | Some obj \<Rightarrow>
          (let sf1 =
                 (if highlighted sf \<noteq> None \<and> highlighted sf \<noteq> Some obj then clearHighlight sf
                  else sf);
               sf2 =
                 (case mesh_material (objects sf1 obj) of
                    Some m \<Rightarrow>
                      sf1\<lparr>materials :=
                            (materials sf1)(m := (materials sf1 m)
                               \<lparr>emissiveIntensity := 1.6\<rparr>\<lparr>emissive := setHex 0xf0f6ff\<rparr>)\<rparr>
                  | None \<Rightarrow> sf1);
               sf3 =
                 sf2\<lparr>objects :=
                       (objects sf2)(obj := (objects sf2 obj)
                          \<lparr>mesh_scale := multiplyScalar (mesh_scale (objects sf2 obj)) 1.3\<rparr>)\<rparr>;
               sf4 =
                 sf3\<lparr>objects :=
                       (objects sf3)(obj := (objects sf3 obj)
                          \<lparr>mesh_userData := (mesh_userData (objects sf3 obj))\<lparr>isHighlighted := True\<rparr>\<rparr>)\<rparr>
           in sf4\<lparr>highlighted := Some obj\<rparr>))"

text \<open>Sequences of calls on a \<^verbatim>\<open>Starfield\<close>.\<close>

datatype highlight_call = Highlight "nat option" | ClearHighlight

fun highlight_calls :: "(nat \<Rightarrow> colour) \<Rightarrow> starfield \<Rightarrow> highlight_call list \<Rightarrow> starfield" where
  "highlight_calls setHex sf [] = sf"
| "highlight_calls setHex sf (Highlight object # cs) =
     highlight_calls setHex (highlight setHex sf object) cs"
| "highlight_calls setHex sf (ClearHighlight # cs) =
     highlight_calls setHex (clearHighlight sf) cs"

text \<open>
  A \<^verbatim>\<open>Starfield\<close> as its constructor leaves it: nothing is highlighted and no mesh
  carries the marker.
\<close>

definition freshly_built :: "starfield \<Rightarrow> bool" where
  "freshly_built sf =
     (highlighted sf = None \<and> (\<forall>i. \<not> isHighlighted (mesh_userData (objects sf i))))"

definition marked :: "starfield \<Rightarrow> nat \<Rightarrow> bool" where
  "marked sf i = isHighlighted (mesh_userData (objects sf i))"

text \<open>Every mesh that carries the marker is the highlighted one.\<close>

definition marker_inv :: "starfield \<Rightarrow> bool" where
  "marker_inv sf = (\<forall>i. marked sf i \<longrightarrow> highlighted sf = Some i)"

section \<open>Arithmetic of the language\<close>

text \<open>
  The numbers of the program are binary64 floating-point numbers; everywhere else in
  this theory they are read as reals. Where rounding decides a property, the
  operations of the language are needed: every arithmetic operation, and every decimal
  literal, yields the exact result rounded to the nearest binary64 number, ties going
  to the even significand. \<open>binary64 x\<close> is that rounding of a real \<open>x\<close>: the
  significand has 53 bits, the exponent of the unit in the last place is at least
  \<open>-1074\<close>, and a result of magnitude \<open>2 ^ 1024\<close> or more is an infinity, for which
  \<open>None\<close> stands (as for every value that is not a finite number). \<open>lerp64\<close> is
  \<^verbatim>\<open>lerp\<close> evaluated this way on finite arguments, \<open>lerp64_repeated n\<close> is \<open>n\<close>
  smoothing steps toward a fixed target.
\<close>

definition pow2 :: "int \<Rightarrow> real" where
  "pow2 e = (if 0 \<le> e then 2 ^ nat e else 1 / 2 ^ nat (- e))"

definition round_ties_even :: "real \<Rightarrow> int" where
  "round_ties_even x =
     (let n = \<lfloor>x\<rfloor>; d = x - real_of_int n
      in if d < 1 / 2 then n else if 1 / 2 < d then n + 1 else if even n then n else n + 1)"

definition binary64_huge :: real where
  "binary64_huge = 2 ^ 1024"

definition binary64 :: "real \<Rightarrow> real option" where
  "binary64 x =
     (if x = 0 then Some 0
      else (let e = max \<lfloor>log 2 \<bar>x\<bar>\<rfloor> (- 1022);
                u = pow2 (e - 52);
                r = real_of_int (round_ties_even (x / u)) * u
            in if binary64_huge \<le> \<bar>r\<bar> then None else Some r))"

definition lerp64 :: "real \<Rightarrow> real \<Rightarrow> real \<Rightarrow> real option" where
  "lerp64 current target smoothing =
     (case binary64 (target - current) of
        None \<Rightarrow> None
      | Some difference \<Rightarrow>
          (case binary64 (difference * smoothing) of
             None \<Rightarrow> None
           | Some change \<Rightarrow> binary64 (current + change)))"

fun lerp64_repeated :: "nat \<Rightarrow> real \<Rightarrow> real \<Rightarrow> real \<Rightarrow> real option" where
  "lerp64_repeated 0 s v f = Some s"
| "lerp64_repeated (Suc n) s v f =
     (case lerp64 s v f of None \<Rightarrow> None | Some s' \<Rightarrow> lerp64_repeated n s' v f)"

section \<open>Sample inputs\<close>

text \<open>
  A hand of 21 landmarks, all at the origin but the index fingertip (8) and the index
  knuckle (5), which lie on opposite sides of the index middle joint (6): only the index
  finger is extended.
\<close>

definition pointingHand :: "landmark list" where
  "pointingHand =
     (replicate 21 \<lparr>lm_x = 0, lm_y = 0, lm_z = Some 0\<rparr>)
       [8 := \<lparr>lm_x = 0.2, lm_y = 0, lm_z = Some 0\<rparr>,
        5 := \<lparr>lm_x = - 0.1, lm_y = 0, lm_z = Some 0\<rparr>]"

text \<open>A video frame at time \<open>t\<close> without a hand, and one with the hand above.\<close>

definition emptyFrame :: "real \<Rightarrow> video_frame" where
  "emptyFrame t =
     \<lparr>currentTime = t, videoWidth = 640, videoHeight = 480,
      vf_results = \<lparr>det_landmarks = Some [], det_worldLandmarks = []\<rparr>\<rparr>"

definition handFrame :: "real \<Rightarrow> video_frame" where
  "handFrame t =
     \<lparr>currentTime = t, videoWidth = 640, videoHeight = 480,
      vf_results = \<lparr>det_landmarks = Some [pointingHand], det_worldLandmarks = [pointingHand]\<rparr>\<rparr>"

text \<open>The controller of \<^verbatim>\<open>main.js\<close> once its model is loaded and it is started.\<close>

definition startedController :: controller where
  "startedController = fst (run (GestureController True None) [Initialize None, Start])"

text \<open>
  A scene in which mesh \<open>i\<close> has material \<open>i\<close>, the values \<^verbatim>\<open>_buildStars\<close> gives a star
  (unit scale, emissive intensity 1.05, the base values saved in \<^verbatim>\<open>userData\<close>) and
  nothing highlighted; a \<open>setHex\<close> reading the three bytes as components; the scene
  after \<^verbatim>\<open>highlight\<close> of mesh 0; and a sequence of calls.
\<close>

definition exampleMesh :: mesh where
  "exampleMesh =
     \<lparr>mesh_material = Some 0, mesh_scale = (1, 1, 1),
      mesh_userData = \<lparr>baseEmissive = Some (0, 0, 1), baseEmissiveIntensity = Some 1.05,
                        baseScale = Some (1, 1, 1), isHighlighted = False\<rparr>\<rparr>"

definition exampleStarfield :: starfield where
  "exampleStarfield =
     \<lparr>objects = (\<lambda>i. exampleMesh\<lparr>mesh_material := Some i\<rparr>),
      materials = (\<lambda>i. \<lparr>emissive = (0, 0, 1), emissiveIntensity = 1.05\<rparr>),
      highlighted = None\<rparr>"

definition exampleSetHex :: "nat \<Rightarrow> colour" where
  "exampleSetHex hex = (real (hex div 65536) / 255, real (hex div 256 mod 256) / 255, real (hex mod 256) / 255)"

definition highlightedStarfield :: starfield where
  "highlightedStarfield = highlight exampleSetHex exampleStarfield (Some 0)"

definition exampleCalls :: "highlight_call list" where
  "exampleCalls = [Highlight (Some 0), Highlight (Some 1), ClearHighlight, Highlight (Some 2)]"

text \<open>
  A history of registrations, and handlers of which handler 2 unregisters itself from
  \<open>update\<close> when invoked while the others leave the table alone.
\<close>

definition exampleHistory :: "call list" where
  "exampleHistory =
     [On ''update'' 1, On ''update'' 2, On ''update'' 1, On ''status'' 7, On ''update'' 3]"

definition exampleBehaviour :: "handler \<Rightarrow> unit \<Rightarrow> call list" where
  "exampleBehaviour h payload = (if h = 2 then [Off ''update'' 2] else [])"

text \<open>
  Histories of the controller of \<^verbatim>\<open>main.js\<close>: a hand is tracked (a frame with the
  hand is processed and the loop callback runs); then \<^verbatim>\<open>stop\<close> and \<^verbatim>\<open>start\<close> are
  called. \<open>holdingTrace n t\<close> shows the same hand on \<open>n\<close> frames at the times
  \<open>t, t + 1, \<dots>\<close>, each followed by the loop callback.
\<close>

definition trackingTrace :: "event list" where
  "trackingTrace =
     [Initialize None, Start, AnimationFrame (handFrame 0), AnimationFrame (handFrame 0)]"

definition restartTrace :: "event list" where
  "restartTrace = trackingTrace @ [Stop, Start]"

fun holdingTrace :: "nat \<Rightarrow> real \<Rightarrow> event list" where
  "holdingTrace 0 t = []"
| "holdingTrace (Suc n) t =
     AnimationFrame (handFrame t) # AnimationFrame (handFrame t) # holdingTrace n (t + 1)"

text \<open>
  The largest binary64 number below 1, and the binary64 number the literal
  \<^verbatim>\<open>0.28\<close> denotes.
\<close>

definition stalled :: real where
  "stalled = 1 - 1 / 2 ^ 53"

definition smoothingFactor64 :: real where
  "smoothingFactor64 = 5044031582654956 / 2 ^ 54"

section \<open>Gesture classification: properties\<close>

lemma length5E:
  assumes "length (fs::bool list) = 5"
  obtains a b c d e where "fs = [a, b, c, d, e]"
  using assms by (auto simp: length_Suc_conv eval_nat_numeral)

text \<open>
  Claim C1. For a vector of five finger flags, \<open>determineGesture\<close> answers \<open>open\<close> when
  at least four flags are true, \<open>fist\<close> when none is, \<open>point\<close> when the flag of the index
  finger (position 1) is the only true one, and \<open>neutral\<close> otherwise; the tests for
  \<open>open\<close> and \<open>fist\<close> come before the test for \<open>point\<close>.
\<close>

theorem determineGesture_classifies:
  assumes "length fingerStates = 5"
  shows "determineGesture fingerStates =
     (if length (filter (\<lambda>b. b) fingerStates) \<ge> 4 then ''open''
      else if length (filter (\<lambda>b. b) fingerStates) = 0 then ''fist''
      else if fingerStates = [False, True, False, False, False] then ''point''
      else ''neutral'')"
proof -
  from assms obtain a b c d e where fs: "fingerStates = [a, b, c, d, e]"
    by (rule length5E)
  show ?thesis
    unfolding fs determineGesture_def truthy_at_def elem_at_def Let_def
    by (cases a; cases b; cases c; cases d; cases e; simp)
qed

theorem determineGesture_classifies_witness:
  "length [False, True, False, False, False] = 5
   \<and> determineGesture [False, True, False, False, False] = ''point''
   \<and> determineGesture [True, True, False, True, True] = ''open''
   \<and> determineGesture [False, False, False, False, False] = ''fist''
   \<and> determineGesture [True, True, False, False, False] = ''neutral''"
  using determineGesture_classifies[of "[False, True, False, False, False]"]
    determineGesture_classifies[of "[True, True, False, True, True]"]
    determineGesture_classifies[of "[False, False, False, False, False]"]
    determineGesture_classifies[of "[True, True, False, False, False]"]
  by simp

section \<open>Finger-state extraction: properties\<close>

lemma finger_index_bounds:
  assumes "i < 5"
  shows "FINGER_TIPS ! i < 21" "FINGER_PIPS ! i < 21" "FINGER_MCP ! i < 21"
proof -
  from assms have "i = 0 \<or> i = 1 \<or> i = 2 \<or> i = 3 \<or> i = 4" by arith
  then show "FINGER_TIPS ! i < 21" "FINGER_PIPS ! i < 21" "FINGER_MCP ! i < 21"
    by (auto simp: FINGER_TIPS_def FINGER_PIPS_def FINGER_MCP_def)
qed

lemma fingerExtended_bendDot:
  assumes "length wl = 21" "i < 5"
  shows "fingerExtended wl i = Inr (bendDot wl i < - 0.015)"
  using assms finger_index_bounds[OF assms(2)]
  by (simp add: fingerExtended_def bendDot_def elem_at_def Let_def)

lemma computeFingerStates_bendDot:
  assumes "length wl = 21"
  shows "computeFingerStates wl = Inr (map (\<lambda>i. bendDot wl i < - 0.015) [0, 1, 2, 3, 4])"
  by (simp add: computeFingerStates_def fingerExtended_bendDot[OF assms])

lemma z_or_0_scale: "z_or_0 (scaleLandmark k a) = k * z_or_0 a"
  by (cases "lm_z a") (simp_all add: z_or_0_def scaleLandmark_def)

lemma dot3_subtract3_scale:
  "dot3 (subtract3 (scaleLandmark k a) (scaleLandmark k b))
        (subtract3 (scaleLandmark k c) (scaleLandmark k b))
   = k\<^sup>2 * dot3 (subtract3 a b) (subtract3 c b)"
  by (simp add: dot3_def subtract3_def z_or_0_scale)
     (simp add: scaleLandmark_def z_or_0_def power2_eq_square algebra_simps)

lemma bendDot_scale:
  assumes "length wl = 21" "i < 5"
  shows "bendDot (map (scaleLandmark k) wl) i = k\<^sup>2 * bendDot wl i"
  using assms finger_index_bounds[OF assms(2)]
  by (simp add: bendDot_def dot3_subtract3_scale)

lemma scaled_threshold:
  assumes "0 < (k::real)"
  shows "(k\<^sup>2 * d < - 0.015) = (d < - 0.015 / k\<^sup>2)"
proof -
  from assms have "0 < k\<^sup>2" by simp
  then show ?thesis by (simp add: field_simps)
qed

text \<open>
  Claim C3 says that the finger states do not change when all coordinates of the 21
  world landmarks are multiplied by a positive factor. The test compares the dot
  product with the fixed threshold \<open>-0.015\<close>, and the dot product grows with the square
  of the factor: halving the coordinates of \<open>pointingHand\<close>, whose index finger has the
  dot product \<open>-0.02\<close>, turns the extended index finger into a curled one.
\<close>

theorem computeFingerStates_scaling_counterexample:
  "length pointingHand = 21 \<and> (0::real) < 1 / 2
   \<and> computeFingerStates pointingHand = Inr [False, True, False, False, False]
   \<and> computeFingerStates (map (scaleLandmark (1 / 2)) pointingHand)
        = Inr [False, False, False, False, False]"
  by (simp add: computeFingerStates_def fingerExtended_def pointingHand_def elem_at_def
        FINGER_TIPS_def FINGER_PIPS_def FINGER_MCP_def dot3_def subtract3_def z_or_0_def
        scaleLandmark_def Let_def)

text \<open>
  Claim C3, amended. For 21 world landmarks and a positive factor \<open>k\<close>, the finger states
  of the landmarks scaled by \<open>k\<close> are those the original landmarks give under the
  threshold \<open>-0.015 / k\<^sup>2\<close> in place of \<open>-0.015\<close>: finger \<open>i\<close> of the scaled hand is
  extended exactly when \<open>dot(tip - pip, mcp - pip) < -0.015 / k\<^sup>2\<close> on the original hand.
\<close>

theorem computeFingerStates_scaled:
  assumes "length wl = 21" and "0 < k"
  shows "computeFingerStates (map (scaleLandmark k) wl)
           = Inr (map (\<lambda>i. bendDot wl i < - 0.015 / k\<^sup>2) [0, 1, 2, 3, 4])
         \<and> computeFingerStates wl = Inr (map (\<lambda>i. bendDot wl i < - 0.015) [0, 1, 2, 3, 4])"
proof -
  have len: "length (map (scaleLandmark k) wl) = 21" using assms(1) by simp
  have "computeFingerStates (map (scaleLandmark k) wl)
          = Inr (map (\<lambda>i. bendDot (map (scaleLandmark k) wl) i < - 0.015) [0, 1, 2, 3, 4])"
    by (rule computeFingerStates_bendDot[OF len])
  also have "map (\<lambda>i. bendDot (map (scaleLandmark k) wl) i < - 0.015) [0, 1, 2, 3, 4]
          = map (\<lambda>i. bendDot wl i < - 0.015 / k\<^sup>2) [0, 1, 2, 3, 4]"
  proof (rule map_cong[OF refl])
    fix i :: nat
    assume "i \<in> set [0, 1, 2, 3, 4]"
    then have i: "i < 5" by auto
    show "(bendDot (map (scaleLandmark k) wl) i < - 0.015) = (bendDot wl i < - 0.015 / k\<^sup>2)"
      by (simp only: bendDot_scale[OF assms(1) i] scaled_threshold[OF assms(2)])
  qed
  finally show ?thesis
    by (simp add: computeFingerStates_bendDot[OF assms(1)])
qed

theorem computeFingerStates_scaled_witness:
  "length pointingHand = 21 \<and> (0::real) < 1 / 2
   \<and> computeFingerStates (map (scaleLandmark (1 / 2)) pointingHand)
        = Inr (map (\<lambda>i. bendDot pointingHand i < - 0.015 / (1 / 2)\<^sup>2) [0, 1, 2, 3, 4])
   \<and> bendDot pointingHand 1 = - 0.02"
proof -
  have l: "length pointingHand = 21" by (simp add: pointingHand_def)
  have k: "(0::real) < 1 / 2" by simp
  have b: "bendDot pointingHand 1 = - 0.02"
    by (simp add: bendDot_def pointingHand_def FINGER_TIPS_def FINGER_PIPS_def FINGER_MCP_def
        dot3_def subtract3_def z_or_0_def)
  from computeFingerStates_scaled[OF l k] l k b show ?thesis by blast
qed

section \<open>Zoom mapping: properties\<close>

text \<open>
  Claim C5. \<open>mapOpennessToRadius\<close> returns \<open>minRadius\<close> (28) for an openness of at most
  \<open>minOpenness\<close> (0.055), \<open>maxRadius\<close> (86) for an openness of at least \<open>maxOpenness\<close>
  (0.16), and in between the linear interpolation
  \<open>minRadius + (openness - minOpenness) / (maxOpenness - minOpenness) * (maxRadius - minRadius)\<close>;
  the midpoint of the openness range is mapped to the midpoint radius 57.
\<close>

theorem mapOpennessToRadius_clamps_and_interpolates:
  "(openness \<le> minOpenness \<longrightarrow> mapOpennessToRadius openness = minRadius)
   \<and> (openness \<ge> maxOpenness \<longrightarrow> mapOpennessToRadius openness = maxRadius)
   \<and> (minOpenness \<le> openness \<and> openness \<le> maxOpenness \<longrightarrow>
        mapOpennessToRadius openness =
          minRadius + (openness - minOpenness) / (maxOpenness - minOpenness) * (maxRadius - minRadius))
   \<and> mapOpennessToRadius ((minOpenness + maxOpenness) / 2) = 57
   \<and> minOpenness = 0.055 \<and> maxOpenness = 0.16 \<and> minRadius = 28 \<and> maxRadius = 86"
  by (simp add: mapOpennessToRadius_def minOpenness_def maxOpenness_def minRadius_def
      maxRadius_def Let_def min_def max_def)

theorem mapOpennessToRadius_clamps_and_interpolates_witness:
  "(0.01::real) \<le> minOpenness \<and> mapOpennessToRadius 0.01 = 28
   \<and> (0.5::real) \<ge> maxOpenness \<and> mapOpennessToRadius 0.5 = 86
   \<and> minOpenness \<le> 0.1075 \<and> (0.1075::real) \<le> maxOpenness \<and> mapOpennessToRadius 0.1075 = 57
   \<and> minOpenness \<le> 0.076 \<and> (0.076::real) \<le> maxOpenness \<and> mapOpennessToRadius 0.076 = 39.6"
proof -
  have a: "(0.01::real) \<le> minOpenness" and b: "(0.5::real) \<ge> maxOpenness"
    and c: "minOpenness \<le> 0.1075 \<and> (0.1075::real) \<le> maxOpenness"
    and d: "minOpenness \<le> 0.076 \<and> (0.076::real) \<le> maxOpenness"
    by (simp_all add: minOpenness_def maxOpenness_def)
  from mapOpennessToRadius_clamps_and_interpolates[of "0.01"] a
  have 1: "mapOpennessToRadius 0.01 = 28" by (simp add: minRadius_def)
  from mapOpennessToRadius_clamps_and_interpolates[of "0.5"] b
  have 2: "mapOpennessToRadius 0.5 = 86" by (simp add: maxRadius_def)
  from mapOpennessToRadius_clamps_and_interpolates[of "0.1075"] c
  have 3: "mapOpennessToRadius 0.1075 = 57"
    by (simp add: minOpenness_def maxOpenness_def minRadius_def maxRadius_def)
  from mapOpennessToRadius_clamps_and_interpolates[of "0.076"] d
  have 4: "mapOpennessToRadius 0.076 = 39.6"
    by (simp add: minOpenness_def maxOpenness_def minRadius_def maxRadius_def)
  from a b c d 1 2 3 4 show ?thesis by blast
qed

section \<open>Gesture controller: properties\<close>

text \<open>
  First the frames without a hand and what handless events preserve, then the frames
  with a well-formed hand, whose payload is spelled out in \<open>step_hand\<close>.
\<close>

lemma drawDetections_no_hand:
  "\<not> hand_present res \<Longrightarrow> drawDetections st res = Normal"
  by (auto simp: drawDetections_def hand_present_def split: option.splits list.splits)

lemma processFrame_no_hand:
  assumes "model st" "currentTime vf \<noteq> lastVideoTime st" "videoWidth vf \<noteq> 0" "videoHeight vf \<noteq> 0"
    and "\<not> hand_present (vf_results vf)"
  shows "processFrame st vf =
           (requestAnimationFrame CbLoop (st\<lparr>lastVideoTime := currentTime vf, prevHandPosition := None\<rparr>),
            [(''update'', [(''gesture'', JString ''none''), (''present'', JBoolean False)])],
            Normal)"
  using assms by (simp add: processFrame_def Let_def drawDetections_no_hand)

lemma step_no_hand:
  assumes "reaches_detector st vf" "\<not> hand_present (vf_results vf)"
  shows "step st (AnimationFrame vf) =
           (requestAnimationFrame CbLoop
              (st\<lparr>scheduled := tl (scheduled st), lastVideoTime := currentTime vf, prevHandPosition := None\<rparr>),
            [(''update'', [(''gesture'', JString ''none''), (''present'', JBoolean False)])],
            Normal)"
proof -
  from assms(1) obtain rest where sch: "scheduled st = CbProcessFrame # rest"
    and m: "model st" and t: "currentTime vf \<noteq> lastVideoTime st"
    and w: "videoWidth vf \<noteq> 0" and h: "videoHeight vf \<noteq> 0"
    by (auto simp: reaches_detector_def split: list.splits callback.splits)
  have "step st (AnimationFrame vf) = processFrame (st\<lparr>scheduled := rest\<rparr>) vf"
    by (simp add: step_def sch)
  also have "\<dots> = (requestAnimationFrame CbLoop
              (st\<lparr>scheduled := rest, lastVideoTime := currentTime vf, prevHandPosition := None\<rparr>),
            [(''update'', [(''gesture'', JString ''none''), (''present'', JBoolean False)])],
            Normal)"
    using m t w h assms(2) by (subst processFrame_no_hand) simp_all
  finally show ?thesis by (simp add: sch)
qed


lemma processFrame_handless:
  assumes "\<not> hand_present (vf_results vf)"
  shows "smoothed_openness (fst (processFrame st vf)) = smoothed_openness st
       \<and> smoothed_position (fst (processFrame st vf)) = smoothed_position st
       \<and> smoothingFactor (fst (processFrame st vf)) = smoothingFactor st
       \<and> (prevHandPosition st = None \<longrightarrow> prevHandPosition (fst (processFrame st vf)) = None)"
  using assms
  by (simp add: processFrame_def Let_def drawDetections_no_hand requestAnimationFrame_def)

lemma step_handless:
  assumes "handless ev"
  shows "smoothed_openness (fst (step st ev)) = smoothed_openness st
       \<and> smoothed_position (fst (step st ev)) = smoothed_position st
       \<and> smoothingFactor (fst (step st ev)) = smoothingFactor st
       \<and> (prevHandPosition st = None \<longrightarrow> prevHandPosition (fst (step st ev)) = None)"
proof (cases ev)
  case (Initialize failure)
  then show ?thesis by (simp add: step_def initialize_def split: option.splits)
next
  case Start
  then show ?thesis by (simp add: step_def start_def loop_def requestAnimationFrame_def)
next
  case Stop
  then show ?thesis by (simp add: step_def stop_def)
next
  case (AnimationFrame vf)
  with assms have nh: "\<not> hand_present (vf_results vf)" by (simp add: handless_def)
  show ?thesis
  proof (cases "scheduled st")
    case Nil
    then show ?thesis using AnimationFrame by (simp add: step_def)
  next
    case (Cons cb rest)
    show ?thesis
    proof (cases cb)
      case CbProcessFrame
      then show ?thesis
        using AnimationFrame Cons processFrame_handless[OF nh, of "st\<lparr>scheduled := rest\<rparr>"]
        by (simp add: step_def Let_def)
    next
      case CbLoop
      then show ?thesis
        using AnimationFrame Cons by (simp add: step_def loop_def requestAnimationFrame_def Let_def)
    qed
  qed
qed

lemma run_handless:
  assumes "list_all handless evs"
  shows "smoothed_openness (fst (run st evs)) = smoothed_openness st
       \<and> smoothed_position (fst (run st evs)) = smoothed_position st
       \<and> smoothingFactor (fst (run st evs)) = smoothingFactor st
       \<and> (prevHandPosition st = None \<longrightarrow> prevHandPosition (fst (run st evs)) = None)"
  using assms
proof (induction evs arbitrary: st)
  case Nil
  show ?case by simp
next
  case (Cons ev evs)
  then have h: "handless ev" and hs: "list_all handless evs" by simp_all
  have r: "fst (run st (ev # evs)) = fst (run (fst (step st ev)) evs)"
    by (simp split: prod.splits)
  show ?case
    unfolding r using step_handless[OF h, of st] Cons.IH[OF hs, of "fst (step st ev)"] by simp
qed





lemma computeOpenness_total:
  assumes "length wl = 21"
  shows "computeOpenness wl =
           Inr ((distance3 (wl ! 0) (wl ! 8) + distance3 (wl ! 0) (wl ! 12)
                 + distance3 (wl ! 0) (wl ! 16) + distance3 (wl ! 0) (wl ! 20)) / 4)"
  using assms by (simp add: computeOpenness_def elem_at_def Let_def)

lemma drawDetections_well_formed:
  assumes "det_landmarks res = Some (lms # others)" "length lms = 21"
  shows "drawDetections st res = Normal"
  using assms by (simp add: drawDetections_def HAND_CONNECTIONS_def elem_at_def)

lemma analyzeLandmarks_well_formed:
  assumes "length lms = 21" "length wl = 21"
    and "computeFingerStates wl = Inr fs" "computeOpenness wl = Inr raw"
  shows "analyzeLandmarks st lms wl =
     (st\<lparr>smoothed_openness := lerp (smoothed_openness st) raw (smoothingFactor st),
         smoothed_position :=
           \<lparr>pt_x = lerp (pt_x (smoothed_position st)) (1 - lm_x (lms ! 0)) (smoothingFactor st),
            pt_y = lerp (pt_y (smoothed_position st)) (lm_y (lms ! 0)) (smoothingFactor st)\<rparr>,
         prevHandPosition := Some
           \<lparr>pt_x = lerp (pt_x (smoothed_position st)) (1 - lm_x (lms ! 0)) (smoothingFactor st),
            pt_y = lerp (pt_y (smoothed_position st)) (lm_y (lms ! 0)) (smoothingFactor st)\<rparr>\<rparr>,
      Inr [(''gesture'', JString (determineGesture fs)),
           (''present'', JBoolean True),
           (''openness'', JNumber (lerp (smoothed_openness st) raw (smoothingFactor st))),
           (''fingerStates'', JBooleans fs),
           (''position'', JPoint
              \<lparr>pt_x = lerp (pt_x (smoothed_position st)) (1 - lm_x (lms ! 0)) (smoothingFactor st),
               pt_y = lerp (pt_y (smoothed_position st)) (lm_y (lms ! 0)) (smoothingFactor st)\<rparr>),
           (''movement'', JPoint
              (case prevHandPosition st of
                 None \<Rightarrow> \<lparr>pt_x = 0, pt_y = 0\<rparr>
               | Some prev \<Rightarrow>
                   \<lparr>pt_x = lerp (pt_x (smoothed_position st)) (1 - lm_x (lms ! 0)) (smoothingFactor st) - pt_x prev,
                    pt_y = lerp (pt_y (smoothed_position st)) (lm_y (lms ! 0)) (smoothingFactor st) - pt_y prev\<rparr>)),
           (''pointer'', JPoint \<lparr>pt_x = lm_x (lms ! 8), pt_y = lm_y (lms ! 8)\<rparr>)])"
  using assms by (cases "prevHandPosition st") (simp_all add: analyzeLandmarks_def elem_at_def Let_def)

lemma step_hand:
  assumes reach: "reaches_detector st vf"
    and lm: "det_landmarks (vf_results vf) = Some (lms # others)"
    and wlm: "det_worldLandmarks (vf_results vf) = wl # wothers"
    and len: "length lms = 21" "length wl = 21"
    and fs: "computeFingerStates wl = Inr fs" and raw: "computeOpenness wl = Inr raw"
  shows "snd (step st (AnimationFrame vf)) =
     ([(''update'',
        [(''gesture'', JString (determineGesture fs)),
         (''present'', JBoolean True),
         (''openness'', JNumber (lerp (smoothed_openness st) raw (smoothingFactor st))),
         (''fingerStates'', JBooleans fs),
         (''position'', JPoint
            \<lparr>pt_x = lerp (pt_x (smoothed_position st)) (1 - lm_x (lms ! 0)) (smoothingFactor st),
             pt_y = lerp (pt_y (smoothed_position st)) (lm_y (lms ! 0)) (smoothingFactor st)\<rparr>),
         (''movement'', JPoint
            (case prevHandPosition st of
               None \<Rightarrow> \<lparr>pt_x = 0, pt_y = 0\<rparr>
             | Some prev \<Rightarrow>
                 \<lparr>pt_x = lerp (pt_x (smoothed_position st)) (1 - lm_x (lms ! 0)) (smoothingFactor st) - pt_x prev,
                  pt_y = lerp (pt_y (smoothed_position st)) (lm_y (lms ! 0)) (smoothingFactor st) - pt_y prev\<rparr>)),
         (''pointer'', JPoint \<lparr>pt_x = lm_x (lms ! 8), pt_y = lm_y (lms ! 8)\<rparr>)])],
      Normal)"
proof -
  from reach obtain rest where sch: "scheduled st = CbProcessFrame # rest"
    and m: "model st" and t: "currentTime vf \<noteq> lastVideoTime st"
    and w: "videoWidth vf \<noteq> 0" and h: "videoHeight vf \<noteq> 0"
    by (auto simp: reaches_detector_def split: list.splits callback.splits)
  define st1 where "st1 = st\<lparr>scheduled := rest, lastVideoTime := currentTime vf\<rparr>"
  have hp: "hand_present (vf_results vf)" by (simp add: hand_present_def lm)
  have dd: "drawDetections st1 (vf_results vf) = Normal"
    by (rule drawDetections_well_formed[OF lm len(1)])
  have "step st (AnimationFrame vf) = processFrame (st\<lparr>scheduled := rest\<rparr>) vf"
    by (simp add: step_def sch)
  also have "\<dots> = (case analyzeLandmarks st1 lms wl of
                      (st2, Inl e) \<Rightarrow> (st2, [], Threw e)
                    | (st2, Inr data) \<Rightarrow> (requestAnimationFrame CbLoop st2, [(''update'', data)], Normal))"
    using m t w h hp dd by (simp add: processFrame_def Let_def st1_def lm wlm)
  finally have "step st (AnimationFrame vf) =
       (case analyzeLandmarks st1 lms wl of
          (st2, Inl e) \<Rightarrow> (st2, [], Threw e)
        | (st2, Inr data) \<Rightarrow> (requestAnimationFrame CbLoop st2, [(''update'', data)], Normal))" .
  then show ?thesis
    by (cases "prevHandPosition st") (simp_all add: analyzeLandmarks_well_formed[OF len fs raw] st1_def)
qed

lemma movement_zero:
  assumes reach: "reaches_detector st vf" and wf: "well_formed_hand (vf_results vf)"
    and prev: "prevHandPosition st = None"
  shows "\<exists>data. snd (step st (AnimationFrame vf)) = ([(''update'', data)], Normal)
           \<and> map_of data ''movement'' = Some (JPoint \<lparr>pt_x = 0, pt_y = 0\<rparr>)"
proof -
  from wf obtain lms others wl wothers
    where lm: "det_landmarks (vf_results vf) = Some (lms # others)"
      and wlm: "det_worldLandmarks (vf_results vf) = wl # wothers"
      and len: "length lms = 21" "length wl = 21"
    by (auto simp: well_formed_hand_def split: option.splits list.splits)
  note s = step_hand[OF reach lm wlm len computeFingerStates_bendDot[OF len(2)] computeOpenness_total[OF len(2)]]
  show ?thesis
    unfolding s prev by simp
qed





lemma startedController_eq:
  "startedController =
     \<lparr>running = True, ready = True, model = True, ctx = True,
      smoothingFactor = defaultSmoothingFactor, lastVideoTime = - 1, prevHandPosition = None,
      smoothed_openness = 0, smoothed_position = \<lparr>pt_x = 0, pt_y = 0\<rparr>,
      scheduled = [CbProcessFrame]\<rparr>"
  by (simp add: startedController_def GestureController_def step_def initialize_def start_def
      loop_def requestAnimationFrame_def)

lemma run_started_empty_twice:
  "fst (run startedController [AnimationFrame (emptyFrame 0), AnimationFrame (emptyFrame 0)]) =
     \<lparr>running = True, ready = True, model = True, ctx = True,
      smoothingFactor = defaultSmoothingFactor, lastVideoTime = 0, prevHandPosition = None,
      smoothed_openness = 0, smoothed_position = \<lparr>pt_x = 0, pt_y = 0\<rparr>,
      scheduled = [CbProcessFrame]\<rparr>"
  by (simp add: startedController_eq step_def processFrame_def emptyFrame_def Let_def
      drawDetections_def hand_present_def loop_def requestAnimationFrame_def)

lemma run_fresh_to_first_frame:
  "fst (run (GestureController True None)
          [Initialize None, Start, AnimationFrame (emptyFrame 0), AnimationFrame (emptyFrame 0)]) =
     \<lparr>running = True, ready = True, model = True, ctx = True,
      smoothingFactor = defaultSmoothingFactor, lastVideoTime = 0, prevHandPosition = None,
      smoothed_openness = 0, smoothed_position = \<lparr>pt_x = 0, pt_y = 0\<rparr>,
      scheduled = [CbProcessFrame]\<rparr>"
  by (simp add: GestureController_def step_def initialize_def start_def processFrame_def
      emptyFrame_def Let_def drawDetections_def hand_present_def loop_def requestAnimationFrame_def)

lemma well_formed_handFrame: "well_formed_hand (vf_results (handFrame t))"
  by (simp add: well_formed_hand_def handFrame_def pointingHand_def)


lemma pointingHand_facts:
  "length pointingHand = 21"
  "lm_x (pointingHand ! 0) = 0" "lm_y (pointingHand ! 0) = 0"
  by (simp_all add: pointingHand_def)

lemma reaches_started_handFrame: "reaches_detector startedController (handFrame 0)"
  by (simp add: reaches_detector_def startedController_eq handFrame_def)

lemma handFrame_results:
  "det_landmarks (vf_results (handFrame t)) = Some (pointingHand # [])"
  "det_worldLandmarks (vf_results (handFrame t)) = pointingHand # []"
  by (simp_all add: handFrame_def)

lemma sqrt_one_25th: "sqrt (1 / 25) = 1 / 5"
  by (rule real_sqrt_unique) (simp_all add: power2_eq_square)

lemma computeOpenness_pointingHand: "computeOpenness pointingHand = Inr (1 / 20)"
proof -
  have l: "length pointingHand = 21" by (simp add: pointingHand_def)
  show ?thesis
    unfolding computeOpenness_total[OF l]
    by (simp add: pointingHand_def distance3_def z_or_0_def sqrt_one_25th)
qed

lemma computeFingerStates_pointingHand:
  "computeFingerStates pointingHand = Inr [False, True, False, False, False]"
  by (simp add: computeFingerStates_def fingerExtended_def pointingHand_def elem_at_def
        FINGER_TIPS_def FINGER_PIPS_def FINGER_MCP_def dot3_def subtract3_def z_or_0_def Let_def)

lemma fst_run_Cons: "fst (run st (ev # evs)) = fst (run (fst (step st ev)) evs)"
  by (simp split: prod.splits)

lemma fst_run_append: "fst (run st (xs @ ys)) = fst (run (fst (run st xs)) ys)"
proof (induction xs arbitrary: st)
  case Nil
  show ?case by simp
next
  case (Cons ev xs)
  have "fst (run st ((ev # xs) @ ys)) = fst (run (fst (step st ev)) (xs @ ys))"
    by (simp only: append_Cons fst_run_Cons)
  also have "\<dots> = fst (run (fst (run (fst (step st ev)) xs)) ys)"
    by (rule Cons.IH)
  finally show ?case by (simp only: fst_run_Cons)
qed

lemma tracking_state:
  "prevHandPosition (fst (run (GestureController True None) trackingTrace))
     = Some \<lparr>pt_x = 0.28, pt_y = 0\<rparr>"
  "smoothed_position (fst (run (GestureController True None) trackingTrace))
     = \<lparr>pt_x = 0.28, pt_y = 0\<rparr>"
  "smoothingFactor (fst (run (GestureController True None) trackingTrace)) = 0.28"
  "scheduled (fst (run (GestureController True None) trackingTrace)) = [CbProcessFrame]"
  "model (fst (run (GestureController True None) trackingTrace))"
  "ready (fst (run (GestureController True None) trackingTrace))"
  "running (fst (run (GestureController True None) trackingTrace))"
  "lastVideoTime (fst (run (GestureController True None) trackingTrace)) = 0"
  "smoothed_openness (fst (run (GestureController True None) trackingTrace)) = 0.014"
  by (simp_all add: trackingTrace_def GestureController_def step_def initialize_def start_def
      loop_def requestAnimationFrame_def processFrame_def Let_def handFrame_def
      drawDetections_def HAND_CONNECTIONS_def elem_at_def hand_present_def
      analyzeLandmarks_well_formed[OF pointingHand_facts(1) pointingHand_facts(1)
        computeFingerStates_pointingHand computeOpenness_pointingHand]
      pointingHand_facts lerp_def defaultSmoothingFactor_def)


lemma restart_state:
  "prevHandPosition (fst (run (GestureController True None) restartTrace))
     = Some \<lparr>pt_x = 0.28, pt_y = 0\<rparr>"
  "smoothed_position (fst (run (GestureController True None) restartTrace))
     = \<lparr>pt_x = 0.28, pt_y = 0\<rparr>"
  "smoothingFactor (fst (run (GestureController True None) restartTrace)) = 0.28"
  "scheduled (fst (run (GestureController True None) restartTrace))
     = [CbProcessFrame, CbProcessFrame]"
  "model (fst (run (GestureController True None) restartTrace))"
  "lastVideoTime (fst (run (GestureController True None) restartTrace)) = - 1"
  "smoothed_openness (fst (run (GestureController True None) restartTrace)) = 0.014"
  unfolding restartTrace_def fst_run_append
  by (simp_all add: step_def stop_def start_def loop_def requestAnimationFrame_def tracking_state)

lemma tracking_then_empty:
  "scheduled (fst (run (fst (run (GestureController True None) trackingTrace))
         [AnimationFrame (emptyFrame 1), AnimationFrame (emptyFrame 1)])) = [CbProcessFrame]"
  "model (fst (run (fst (run (GestureController True None) trackingTrace))
         [AnimationFrame (emptyFrame 1), AnimationFrame (emptyFrame 1)]))"
  "lastVideoTime (fst (run (fst (run (GestureController True None) trackingTrace))
         [AnimationFrame (emptyFrame 1), AnimationFrame (emptyFrame 1)])) = 1"
proof -
  let ?T = "fst (run (GestureController True None) trackingTrace)"
  have reach: "reaches_detector ?T (emptyFrame 1)"
    by (simp add: reaches_detector_def tracking_state emptyFrame_def)
  have nh: "\<not> hand_present (vf_results (emptyFrame 1))"
    by (simp add: hand_present_def emptyFrame_def)
  have r: "fst (run ?T [AnimationFrame (emptyFrame 1), AnimationFrame (emptyFrame 1)])
         = fst (step (fst (step ?T (AnimationFrame (emptyFrame 1)))) (AnimationFrame (emptyFrame 1)))"
    by (simp only: fst_run_Cons) simp
  have s1: "fst (step ?T (AnimationFrame (emptyFrame 1)))
         = ?T\<lparr>scheduled := [CbLoop], lastVideoTime := 1, prevHandPosition := None\<rparr>"
    by (simp add: step_no_hand[OF reach nh] requestAnimationFrame_def tracking_state)
       (simp add: emptyFrame_def)
  show "scheduled (fst (run ?T [AnimationFrame (emptyFrame 1), AnimationFrame (emptyFrame 1)]))
          = [CbProcessFrame]"
    and "model (fst (run ?T [AnimationFrame (emptyFrame 1), AnimationFrame (emptyFrame 1)]))"
    and "lastVideoTime (fst (run ?T [AnimationFrame (emptyFrame 1), AnimationFrame (emptyFrame 1)])) = 1"
    unfolding r s1
    by (simp_all add: step_def loop_def requestAnimationFrame_def tracking_state Let_def)
qed

lemma start_stop_keep_baseline:
  "prevHandPosition (start st) = prevHandPosition st \<and> prevHandPosition (stop st) = prevHandPosition st"
  by (simp add: start_def stop_def loop_def requestAnimationFrame_def)

text \<open>
  Claim C8. A frame that reaches the detector and finds no hand leaves the smoothed
  openness and the smoothed position as they were, clears the previous position, and
  emits exactly one event, \<open>update\<close>, whose payload has the two fields
  \<open>gesture: "none"\<close> and \<open>present: false\<close> and no other. Of the controller's fields it
  changes the previous position, the time of the last frame and the scheduled
  callbacks, nothing else.
\<close>

theorem no_hand_frame_effect:
  assumes "reaches_detector st vf" and "\<not> hand_present (vf_results vf)"
  shows "smoothed_openness (fst (step st (AnimationFrame vf))) = smoothed_openness st
       \<and> smoothed_position (fst (step st (AnimationFrame vf))) = smoothed_position st
       \<and> prevHandPosition (fst (step st (AnimationFrame vf))) = None
       \<and> snd (step st (AnimationFrame vf))
           = ([(''update'', [(''gesture'', JString ''none''), (''present'', JBoolean False)])], Normal)
       \<and> fst (step st (AnimationFrame vf))
           = st\<lparr>scheduled := tl (scheduled st) @ [CbLoop], lastVideoTime := currentTime vf,
                 prevHandPosition := None\<rparr>"
  by (simp add: step_no_hand[OF assms] requestAnimationFrame_def)

theorem no_hand_frame_effect_witness:
  "reaches_detector startedController (emptyFrame 0)
   \<and> \<not> hand_present (vf_results (emptyFrame 0))
   \<and> smoothed_openness (fst (step startedController (AnimationFrame (emptyFrame 0)))) = 0
   \<and> smoothed_position (fst (step startedController (AnimationFrame (emptyFrame 0))))
       = \<lparr>pt_x = 0, pt_y = 0\<rparr>
   \<and> prevHandPosition (fst (step startedController (AnimationFrame (emptyFrame 0)))) = None
   \<and> snd (step startedController (AnimationFrame (emptyFrame 0)))
       = ([(''update'', [(''gesture'', JString ''none''), (''present'', JBoolean False)])], Normal)"
proof -
  have h1: "reaches_detector startedController (emptyFrame 0)"
    by (simp add: reaches_detector_def startedController_eq emptyFrame_def)
  have h2: "\<not> hand_present (vf_results (emptyFrame 0))"
    by (simp add: hand_present_def emptyFrame_def)
  from no_hand_frame_effect[OF h1 h2] h1 h2 show ?thesis
    by (simp add: startedController_eq)
qed

text \<open>
  Claim C4 says that the movement is \<open>{x: 0, y: 0}\<close> on the first frame with a hand
  after a frame without one, and on the very first frame with a hand after \<open>start\<close>.
  The second half fails after a restart: a hand is tracked, \<open>stop\<close> and \<open>start\<close> are
  called, and the next frame, the first with a hand after that \<open>start\<close>, reports the
  movement \<open>{x: 0.2016, y: 0}\<close>, because \<open>start\<close> leaves the previous position as
  stored by the frame before the \<open>stop\<close>.
\<close>

theorem restart_movement_counterexample:
  "restartTrace = [Initialize None, Start, AnimationFrame (handFrame 0),
                   AnimationFrame (handFrame 0), Stop, Start]
   \<and> reaches_detector (fst (run (GestureController True None) restartTrace)) (handFrame 1)
   \<and> well_formed_hand (vf_results (handFrame 1))
   \<and> snd (step (fst (run (GestureController True None) restartTrace))
              (AnimationFrame (handFrame 1)))
       = ([(''update'',
            [(''gesture'', JString ''point''),
             (''present'', JBoolean True),
             (''openness'', JNumber 0.02408),
             (''fingerStates'', JBooleans [False, True, False, False, False]),
             (''position'', JPoint \<lparr>pt_x = 0.4816, pt_y = 0\<rparr>),
             (''movement'', JPoint \<lparr>pt_x = 0.2016, pt_y = 0\<rparr>),
             (''pointer'', JPoint \<lparr>pt_x = 0.2, pt_y = 0\<rparr>)])],
          Normal)"
proof -
  have t: "restartTrace = [Initialize None, Start, AnimationFrame (handFrame 0),
                   AnimationFrame (handFrame 0), Stop, Start]"
    by (simp add: restartTrace_def trackingTrace_def)
  have r: "reaches_detector (fst (run (GestureController True None) restartTrace)) (handFrame 1)"
    by (simp add: reaches_detector_def restart_state handFrame_def)
  have w: "well_formed_hand (vf_results (handFrame 1))"
    by (rule well_formed_handFrame)
  note s = step_hand[OF r handFrame_results pointingHand_facts(1) pointingHand_facts(1)
      computeFingerStates_pointingHand computeOpenness_pointingHand]
  have p: "lm_x (pointingHand ! 8) = 0.2" "lm_y (pointingHand ! 8) = 0"
    by (simp_all add: pointingHand_def)
  have g: "determineGesture [False, True, False, False, False] = ''point''"
    by (simp add: determineGesture_def truthy_at_def elem_at_def)
  have e: "snd (step (fst (run (GestureController True None) restartTrace))
              (AnimationFrame (handFrame 1)))
       = ([(''update'',
            [(''gesture'', JString ''point''),
             (''present'', JBoolean True),
             (''openness'', JNumber 0.02408),
             (''fingerStates'', JBooleans [False, True, False, False, False]),
             (''position'', JPoint \<lparr>pt_x = 0.4816, pt_y = 0\<rparr>),
             (''movement'', JPoint \<lparr>pt_x = 0.2016, pt_y = 0\<rparr>),
             (''pointer'', JPoint \<lparr>pt_x = 0.2, pt_y = 0\<rparr>)])],
          Normal)"
    unfolding s g by (simp add: restart_state pointingHand_facts p lerp_def)
  from t r w e show ?thesis by blast
qed

text \<open>
  Claim C4, amended. A frame that reaches the detector and finds no hand clears the
  stored previous position. The first frame with a (well-formed) hand that reaches the
  detector after such a frame, whatever handless events lie in between, emits an update
  whose \<open>movement\<close> is \<open>{x: 0, y: 0}\<close>; so does the first frame with a hand in the life
  of a controller, whatever handless events (calls of \<open>initialize\<close>, \<open>start\<close> and \<open>stop\<close>,
  frames without a hand) precede it. \<open>start\<close> and \<open>stop\<close> leave the stored previous
  position as it is.
\<close>

theorem first_hand_frame_movement_zero:
  "(reaches_detector st0 vf0 \<and> \<not> hand_present (vf_results vf0) \<longrightarrow>
      prevHandPosition (fst (step st0 (AnimationFrame vf0))) = None)
   \<and> (reaches_detector st0 vf0 \<and> \<not> hand_present (vf_results vf0) \<and> list_all handless evs
        \<and> reaches_detector (fst (run st0 (AnimationFrame vf0 # evs))) vf
        \<and> well_formed_hand (vf_results vf) \<longrightarrow>
      (\<exists>data. snd (step (fst (run st0 (AnimationFrame vf0 # evs))) (AnimationFrame vf))
                 = ([(''update'', data)], Normal)
             \<and> map_of data ''movement'' = Some (JPoint \<lparr>pt_x = 0, pt_y = 0\<rparr>)))
   \<and> (list_all handless evs
        \<and> reaches_detector (fst (run (GestureController has_ctx option) evs)) vf
        \<and> well_formed_hand (vf_results vf) \<longrightarrow>
      (\<exists>data. snd (step (fst (run (GestureController has_ctx option) evs)) (AnimationFrame vf))
                 = ([(''update'', data)], Normal)
             \<and> map_of data ''movement'' = Some (JPoint \<lparr>pt_x = 0, pt_y = 0\<rparr>)))
   \<and> prevHandPosition (start st) = prevHandPosition st
   \<and> prevHandPosition (stop st) = prevHandPosition st"
proof (intro conjI impI)
  show "prevHandPosition (start st) = prevHandPosition st"
    and "prevHandPosition (stop st) = prevHandPosition st"
    using start_stop_keep_baseline[of st] by simp_all
next
  assume "reaches_detector st0 vf0 \<and> \<not> hand_present (vf_results vf0)"
  then show "prevHandPosition (fst (step st0 (AnimationFrame vf0))) = None"
    by (simp add: step_no_hand requestAnimationFrame_def)
next
  assume a: "reaches_detector st0 vf0 \<and> \<not> hand_present (vf_results vf0) \<and> list_all handless evs
        \<and> reaches_detector (fst (run st0 (AnimationFrame vf0 # evs))) vf
        \<and> well_formed_hand (vf_results vf)"
  then have cleared: "prevHandPosition (fst (step st0 (AnimationFrame vf0))) = None"
    by (simp add: step_no_hand requestAnimationFrame_def)
  have r: "fst (run st0 (AnimationFrame vf0 # evs)) = fst (run (fst (step st0 (AnimationFrame vf0))) evs)"
    by (simp split: prod.splits)
  from a have "list_all handless evs" by simp
  from run_handless[OF this, of "fst (step st0 (AnimationFrame vf0))"] cleared
  have "prevHandPosition (fst (run st0 (AnimationFrame vf0 # evs))) = None"
    unfolding r by simp
  with a show "\<exists>data. snd (step (fst (run st0 (AnimationFrame vf0 # evs))) (AnimationFrame vf))
                 = ([(''update'', data)], Normal)
             \<and> map_of data ''movement'' = Some (JPoint \<lparr>pt_x = 0, pt_y = 0\<rparr>)"
    by (intro movement_zero) simp_all
next
  assume a: "list_all handless evs
        \<and> reaches_detector (fst (run (GestureController has_ctx option) evs)) vf
        \<and> well_formed_hand (vf_results vf)"
  then have "list_all handless evs" by simp
  from run_handless[OF this, of "GestureController has_ctx option"]
  have "prevHandPosition (fst (run (GestureController has_ctx option) evs)) = None"
    by (simp add: GestureController_def)
  with a show "\<exists>data. snd (step (fst (run (GestureController has_ctx option) evs)) (AnimationFrame vf))
                 = ([(''update'', data)], Normal)
             \<and> map_of data ''movement'' = Some (JPoint \<lparr>pt_x = 0, pt_y = 0\<rparr>)"
    by (intro movement_zero) simp_all
qed

theorem first_hand_frame_movement_zero_witness:
  "prevHandPosition (fst (run (GestureController True None) trackingTrace))
     = Some \<lparr>pt_x = 0.28, pt_y = 0\<rparr>
   \<and> reaches_detector (fst (run (GestureController True None) trackingTrace)) (emptyFrame 1)
   \<and> \<not> hand_present (vf_results (emptyFrame 1))
   \<and> prevHandPosition (fst (step (fst (run (GestureController True None) trackingTrace))
                                (AnimationFrame (emptyFrame 1)))) = None
   \<and> list_all handless [AnimationFrame (emptyFrame 1)]
   \<and> reaches_detector
        (fst (run (fst (run (GestureController True None) trackingTrace))
               [AnimationFrame (emptyFrame 1), AnimationFrame (emptyFrame 1)]))
        (handFrame 2)
   \<and> well_formed_hand (vf_results (handFrame 2))
   \<and> (\<exists>data. snd (step (fst (run (fst (run (GestureController True None) trackingTrace))
                                [AnimationFrame (emptyFrame 1), AnimationFrame (emptyFrame 1)]))
                     (AnimationFrame (handFrame 2)))
                 = ([(''update'', data)], Normal)
             \<and> map_of data ''movement'' = Some (JPoint \<lparr>pt_x = 0, pt_y = 0\<rparr>))
   \<and> list_all handless [Initialize None, Start, AnimationFrame (emptyFrame 0), AnimationFrame (emptyFrame 0)]
   \<and> reaches_detector
        (fst (run (GestureController True None)
               [Initialize None, Start, AnimationFrame (emptyFrame 0), AnimationFrame (emptyFrame 0)]))
        (handFrame 1)
   \<and> well_formed_hand (vf_results (handFrame 1))
   \<and> (\<exists>data. snd (step (fst (run (GestureController True None)
                                [Initialize None, Start, AnimationFrame (emptyFrame 0),
                                 AnimationFrame (emptyFrame 0)]))
                     (AnimationFrame (handFrame 1)))
                 = ([(''update'', data)], Normal)
             \<and> map_of data ''movement'' = Some (JPoint \<lparr>pt_x = 0, pt_y = 0\<rparr>))"
proof -
  let ?T = "fst (run (GestureController True None) trackingTrace)"
  have h1: "reaches_detector ?T (emptyFrame 1)"
    by (simp add: reaches_detector_def tracking_state emptyFrame_def)
  have h2: "\<not> hand_present (vf_results (emptyFrame 1))"
    by (simp add: hand_present_def emptyFrame_def)
  have h3: "list_all handless [AnimationFrame (emptyFrame 1)]"
    by (simp add: handless_def h2)
  have h4: "reaches_detector
        (fst (run ?T [AnimationFrame (emptyFrame 1), AnimationFrame (emptyFrame 1)])) (handFrame 2)"
    by (simp add: reaches_detector_def tracking_then_empty handFrame_def del: run.simps)
  have h5: "well_formed_hand (vf_results (handFrame 2))"
    by (rule well_formed_handFrame)
  have h6: "list_all handless
      [Initialize None, Start, AnimationFrame (emptyFrame 0), AnimationFrame (emptyFrame 0)]"
    by (simp add: handless_def hand_present_def emptyFrame_def)
  have h7: "reaches_detector
        (fst (run (GestureController True None)
               [Initialize None, Start, AnimationFrame (emptyFrame 0), AnimationFrame (emptyFrame 0)]))
        (handFrame 1)"
    unfolding run_fresh_to_first_frame by (simp add: reaches_detector_def handFrame_def)
  have h8: "well_formed_hand (vf_results (handFrame 1))"
    by (rule well_formed_handFrame)
  note inst = first_hand_frame_movement_zero
      [of ?T "emptyFrame 1" "[AnimationFrame (emptyFrame 1)]" "handFrame 2"]
  from inst h1 h2
  have c0: "prevHandPosition (fst (step ?T (AnimationFrame (emptyFrame 1)))) = None"
    by blast
  from inst h1 h2 h3 h4 h5
  have c1: "\<exists>data. snd (step (fst (run ?T [AnimationFrame (emptyFrame 1), AnimationFrame (emptyFrame 1)]))
                     (AnimationFrame (handFrame 2)))
                 = ([(''update'', data)], Normal)
             \<and> map_of data ''movement'' = Some (JPoint \<lparr>pt_x = 0, pt_y = 0\<rparr>)"
    by blast
  from first_hand_frame_movement_zero
         [of ?T "emptyFrame 1"
             "[Initialize None, Start, AnimationFrame (emptyFrame 0), AnimationFrame (emptyFrame 0)]"
             "handFrame 1" True None]
       h6 h7 h8
  have c2: "\<exists>data. snd (step (fst (run (GestureController True None)
                                [Initialize None, Start, AnimationFrame (emptyFrame 0),
                                 AnimationFrame (emptyFrame 0)]))
                     (AnimationFrame (handFrame 1)))
                 = ([(''update'', data)], Normal)
             \<and> map_of data ''movement'' = Some (JPoint \<lparr>pt_x = 0, pt_y = 0\<rparr>)"
    by blast
  from tracking_state(1) h1 h2 c0 h3 h4 h5 c1 h6 h7 h8 c2 show ?thesis by blast
qed

text \<open>
  Claim C10. The constructor sets the smoothed openness to 0 and the smoothed position
  to \<open>{x: 0, y: 0}\<close>; \<open>stop\<close> and \<open>start\<close> leave both as they are. Hence the first frame
  with a hand in the life of a controller built with the default smoothing factor emits
  the openness \<open>0.28 * raw\<close>, where \<open>raw\<close> is the openness computed from the frame, and
  the position \<open>0.28\<close> times the mirrored wrist position.
\<close>

theorem smoothed_signal_starts_at_zero:
  "smoothed_openness (GestureController has_ctx option) = 0
   \<and> smoothed_position (GestureController has_ctx option) = \<lparr>pt_x = 0, pt_y = 0\<rparr>
   \<and> smoothed_openness (stop st) = smoothed_openness st
   \<and> smoothed_position (stop st) = smoothed_position st
   \<and> smoothed_openness (start st) = smoothed_openness st
   \<and> smoothed_position (start st) = smoothed_position st
   \<and> (list_all handless evs
        \<and> reaches_detector (fst (run (GestureController has_ctx None) evs)) vf
        \<and> det_landmarks (vf_results vf) = Some (lms # others)
        \<and> det_worldLandmarks (vf_results vf) = wl # wothers
        \<and> length lms = 21 \<and> length wl = 21 \<longrightarrow>
      (\<exists>raw data.
          computeOpenness wl = Inr raw
        \<and> snd (step (fst (run (GestureController has_ctx None) evs)) (AnimationFrame vf))
            = ([(''update'', data)], Normal)
        \<and> map_of data ''openness'' = Some (JNumber (0.28 * raw))
        \<and> map_of data ''position''
            = Some (JPoint \<lparr>pt_x = 0.28 * (1 - lm_x (lms ! 0)), pt_y = 0.28 * lm_y (lms ! 0)\<rparr>)))"
proof (intro conjI impI)
  show "smoothed_openness (GestureController has_ctx option) = 0"
    and "smoothed_position (GestureController has_ctx option) = \<lparr>pt_x = 0, pt_y = 0\<rparr>"
    by (simp_all add: GestureController_def)
  show "smoothed_openness (stop st) = smoothed_openness st"
    and "smoothed_position (stop st) = smoothed_position st"
    by (simp_all add: stop_def)
  show "smoothed_openness (start st) = smoothed_openness st"
    and "smoothed_position (start st) = smoothed_position st"
    by (simp_all add: start_def loop_def requestAnimationFrame_def)
next
  let ?st = "fst (run (GestureController has_ctx None) evs)"
  assume a: "list_all handless evs
        \<and> reaches_detector ?st vf
        \<and> det_landmarks (vf_results vf) = Some (lms # others)
        \<and> det_worldLandmarks (vf_results vf) = wl # wothers
        \<and> length lms = 21 \<and> length wl = 21"
  then have quiet: "list_all handless evs" and reach: "reaches_detector ?st vf"
    and lm: "det_landmarks (vf_results vf) = Some (lms # others)"
    and wlm: "det_worldLandmarks (vf_results vf) = wl # wothers"
    and len: "length lms = 21" "length wl = 21"
    by simp_all
  from run_handless[OF quiet, of "GestureController has_ctx None"]
  have init: "smoothed_openness ?st = 0" "smoothed_position ?st = \<lparr>pt_x = 0, pt_y = 0\<rparr>"
    "smoothingFactor ?st = 0.28"
    by (simp_all add: GestureController_def defaultSmoothingFactor_def)
  note s = step_hand[OF reach lm wlm len computeFingerStates_bendDot[OF len(2)]
      computeOpenness_total[OF len(2)]]
  show "\<exists>raw data.
          computeOpenness wl = Inr raw
        \<and> snd (step ?st (AnimationFrame vf)) = ([(''update'', data)], Normal)
        \<and> map_of data ''openness'' = Some (JNumber (0.28 * raw))
        \<and> map_of data ''position''
            = Some (JPoint \<lparr>pt_x = 0.28 * (1 - lm_x (lms ! 0)), pt_y = 0.28 * lm_y (lms ! 0)\<rparr>)"
    unfolding s init
    by (intro exI conjI) (rule computeOpenness_total[OF len(2)], rule refl, simp_all add: lerp_def)
qed

theorem smoothed_signal_starts_at_zero_witness:
  "list_all handless [Initialize None, Start]
   \<and> reaches_detector (fst (run (GestureController True None) [Initialize None, Start])) (handFrame 0)
   \<and> det_landmarks (vf_results (handFrame 0)) = Some (pointingHand # [])
   \<and> det_worldLandmarks (vf_results (handFrame 0)) = pointingHand # []
   \<and> length pointingHand = 21
   \<and> (\<exists>raw data.
          computeOpenness pointingHand = Inr raw
        \<and> snd (step (fst (run (GestureController True None) [Initialize None, Start]))
                 (AnimationFrame (handFrame 0)))
            = ([(''update'', data)], Normal)
        \<and> map_of data ''openness'' = Some (JNumber (0.28 * raw))
        \<and> map_of data ''position''
            = Some (JPoint \<lparr>pt_x = 0.28 * (1 - lm_x (pointingHand ! 0)),
                             pt_y = 0.28 * lm_y (pointingHand ! 0)\<rparr>))"
proof -
  have h1: "list_all handless [Initialize None, Start]"
    by (simp add: handless_def)
  have h2: "reaches_detector (fst (run (GestureController True None) [Initialize None, Start]))
              (handFrame 0)"
    using startedController_eq
    by (simp add: startedController_def reaches_detector_def handFrame_def)
  have h3: "det_landmarks (vf_results (handFrame 0)) = Some (pointingHand # [])"
    and h4: "det_worldLandmarks (vf_results (handFrame 0)) = pointingHand # []"
    by (simp_all add: handFrame_def)
  have h5: "length pointingHand = 21"
    by (simp add: pointingHand_def)
  from smoothed_signal_starts_at_zero
         [of True None startedController "[Initialize None, Start]" "handFrame 0"
             pointingHand "[]" pointingHand "[]"]
       h1 h2 h3 h4 h5
  have "\<exists>raw data.
          computeOpenness pointingHand = Inr raw
        \<and> snd (step (fst (run (GestureController True None) [Initialize None, Start]))
                 (AnimationFrame (handFrame 0)))
            = ([(''update'', data)], Normal)
        \<and> map_of data ''openness'' = Some (JNumber (0.28 * raw))
        \<and> map_of data ''position''
            = Some (JPoint \<lparr>pt_x = 0.28 * (1 - lm_x (pointingHand ! 0)),
                             pt_y = 0.28 * lm_y (pointingHand ! 0)\<rparr>)"
    by blast
  with h1 h2 h3 h4 h5 show ?thesis by blast
qed

section \<open>Temporal smoothing: properties\<close>

text \<open>
  What one event does to a smoothed channel of the controller, then the closed form of
  the distance to a held input along a run, read as real arithmetic.
\<close>

lemma lerp_step_error:
  "lerp c v defaultSmoothingFactor - v = (c - v) * 0.72"
  by (simp add: lerp_def defaultSmoothingFactor_def field_simps)

lemma step_hand_state:
  assumes reach: "reaches_detector st vf"
    and lm: "det_landmarks (vf_results vf) = Some (lms # others)"
    and wlm: "det_worldLandmarks (vf_results vf) = wl # wothers"
    and len: "length lms = 21" "length wl = 21"
    and raw: "computeOpenness wl = Inr raw"
  shows "smoothed_openness (fst (step st (AnimationFrame vf)))
           = lerp (smoothed_openness st) raw (smoothingFactor st)"
    and "pt_x (smoothed_position (fst (step st (AnimationFrame vf))))
           = lerp (pt_x (smoothed_position st)) (1 - lm_x (lms ! 0)) (smoothingFactor st)"
    and "pt_y (smoothed_position (fst (step st (AnimationFrame vf))))
           = lerp (pt_y (smoothed_position st)) (lm_y (lms ! 0)) (smoothingFactor st)"
    and "smoothingFactor (fst (step st (AnimationFrame vf))) = smoothingFactor st"
proof -
  from reach obtain rest where sch: "scheduled st = CbProcessFrame # rest"
    and m: "model st" and t: "currentTime vf \<noteq> lastVideoTime st"
    and w: "videoWidth vf \<noteq> 0" and h: "videoHeight vf \<noteq> 0"
    by (auto simp: reaches_detector_def split: list.splits callback.splits)
  define st1 where "st1 = st\<lparr>scheduled := rest, lastVideoTime := currentTime vf\<rparr>"
  have hp: "hand_present (vf_results vf)" by (simp add: hand_present_def lm)
  have dd: "drawDetections st1 (vf_results vf) = Normal"
    by (rule drawDetections_well_formed[OF lm len(1)])
  have "step st (AnimationFrame vf) = processFrame (st\<lparr>scheduled := rest\<rparr>) vf"
    by (simp add: step_def sch)
  also have "\<dots> = (case analyzeLandmarks st1 lms wl of
                      (st2, Inl e) \<Rightarrow> (st2, [], Threw e)
                    | (st2, Inr data) \<Rightarrow> (requestAnimationFrame CbLoop st2, [(''update'', data)], Normal))"
    using m t w h hp dd by (simp add: processFrame_def Let_def st1_def lm wlm)
  finally have s: "step st (AnimationFrame vf) =
       (case analyzeLandmarks st1 lms wl of
          (st2, Inl e) \<Rightarrow> (st2, [], Threw e)
        | (st2, Inr data) \<Rightarrow> (requestAnimationFrame CbLoop st2, [(''update'', data)], Normal))" .
  note a = analyzeLandmarks_well_formed[OF len computeFingerStates_bendDot[OF len(2)] raw, of st1]
  show "smoothed_openness (fst (step st (AnimationFrame vf)))
           = lerp (smoothed_openness st) raw (smoothingFactor st)"
    and "pt_x (smoothed_position (fst (step st (AnimationFrame vf))))
           = lerp (pt_x (smoothed_position st)) (1 - lm_x (lms ! 0)) (smoothingFactor st)"
    and "pt_y (smoothed_position (fst (step st (AnimationFrame vf))))
           = lerp (pt_y (smoothed_position st)) (lm_y (lms ! 0)) (smoothingFactor st)"
    and "smoothingFactor (fst (step st (AnimationFrame vf))) = smoothingFactor st"
    unfolding s a by (simp_all add: st1_def requestAnimationFrame_def)
qed

lemma processFrame_skipped:
  assumes "\<not> (model st \<and> currentTime vf \<noteq> lastVideoTime st \<and> videoWidth vf \<noteq> 0 \<and> videoHeight vf \<noteq> 0)"
  shows "smoothed_openness (fst (processFrame st vf)) = smoothed_openness st
       \<and> smoothed_position (fst (processFrame st vf)) = smoothed_position st
       \<and> smoothingFactor (fst (processFrame st vf)) = smoothingFactor st"
  using assms by (auto simp: processFrame_def Let_def requestAnimationFrame_def)

lemma step_not_processed:
  assumes "\<not> processes st ev"
  shows "smoothed_openness (fst (step st ev)) = smoothed_openness st
       \<and> smoothed_position (fst (step st ev)) = smoothed_position st
       \<and> smoothingFactor (fst (step st ev)) = smoothingFactor st"
proof (cases ev)
  case (Initialize failure)
  then show ?thesis by (simp add: step_def initialize_def split: option.splits)
next
  case Start
  then show ?thesis by (simp add: step_def start_def loop_def requestAnimationFrame_def)
next
  case Stop
  then show ?thesis by (simp add: step_def stop_def)
next
  case (AnimationFrame vf)
  show ?thesis
  proof (cases "scheduled st")
    case Nil
    then show ?thesis using AnimationFrame by (simp add: step_def)
  next
    case (Cons cb rest)
    show ?thesis
    proof (cases cb)
      case CbProcessFrame
      with assms AnimationFrame Cons
      have "\<not> (model st \<and> currentTime vf \<noteq> lastVideoTime st \<and> videoWidth vf \<noteq> 0 \<and> videoHeight vf \<noteq> 0)"
        by (simp add: processes_def reaches_detector_def)
      with processFrame_skipped[of "st\<lparr>scheduled := rest\<rparr>" vf]
      show ?thesis using AnimationFrame Cons CbProcessFrame by (simp add: step_def Let_def)
    next
      case CbLoop
      then show ?thesis
        using AnimationFrame Cons by (simp add: step_def loop_def requestAnimationFrame_def Let_def)
    qed
  qed
qed

lemma step_held:
  assumes "held c v ev"
  shows "smoothed_value c (fst (step st ev))
           = (if processes st ev then lerp (smoothed_value c st) v (smoothingFactor st)
              else smoothed_value c st)"
    and "smoothingFactor (fst (step st ev)) = smoothingFactor st"
proof -
  have "smoothed_value c (fst (step st ev))
           = (if processes st ev then lerp (smoothed_value c st) v (smoothingFactor st)
              else smoothed_value c st)
        \<and> smoothingFactor (fst (step st ev)) = smoothingFactor st"
  proof (cases "processes st ev")
    case False
    with step_not_processed[OF False] show ?thesis
      by (cases c) (simp_all add: smoothed_value_def)
  next
    case True
    then obtain vf where ev: "ev = AnimationFrame vf" and reach: "reaches_detector st vf"
      by (auto simp: processes_def split: event.splits)
    from assms ev obtain lms others wl wothers
      where lm: "det_landmarks (vf_results vf) = Some (lms # others)"
        and wlm: "det_worldLandmarks (vf_results vf) = wl # wothers"
        and len: "length lms = 21" "length wl = 21"
        and raw: "raw_value c lms wl = Inr v"
      by (auto simp: held_def split: option.splits list.splits)
    note s = step_hand_state[OF reach lm wlm len computeOpenness_total[OF len(2)]]
    show ?thesis
    proof (cases c)
      case Openness
      with raw have "computeOpenness wl = Inr v" by (simp add: raw_value_def)
      from step_hand_state(1,4)[OF reach lm wlm len this] True ev Openness
      show ?thesis by (simp add: smoothed_value_def)
    next
      case PositionX
      with raw len have "1 - lm_x (lms ! 0) = v" by (simp add: raw_value_def elem_at_def)
      with s(2,4) True ev PositionX show ?thesis by (simp add: smoothed_value_def)
    next
      case PositionY
      with raw len have "lm_y (lms ! 0) = v" by (simp add: raw_value_def elem_at_def)
      with s(3,4) True ev PositionY show ?thesis by (simp add: smoothed_value_def)
    qed
  qed
  then show "smoothed_value c (fst (step st ev))
           = (if processes st ev then lerp (smoothed_value c st) v (smoothingFactor st)
              else smoothed_value c st)"
    and "smoothingFactor (fst (step st ev)) = smoothingFactor st"
    by simp_all
qed


lemma run_held_closed_form:
  assumes "list_all (held c v) evs" and "smoothingFactor st = defaultSmoothingFactor"
  shows "smoothed_value c (fst (run st evs)) - v
           = (smoothed_value c st - v) * 0.72 ^ frames_processed st evs"
  using assms
proof (induction evs arbitrary: st)
  case Nil
  show ?case by simp
next
  case (Cons ev evs)
  then have h: "held c v ev" and hs: "list_all (held c v) evs" by simp_all
  let ?st1 = "fst (step st ev)"
  have f: "smoothingFactor ?st1 = defaultSmoothingFactor"
    using step_held(2)[OF h, of st] Cons.prems(2) by simp
  have one: "smoothed_value c ?st1 - v
               = (smoothed_value c st - v) * 0.72 ^ (if processes st ev then 1 else 0)"
    by (simp add: step_held(1)[OF h] Cons.prems(2) lerp_step_error)
  have "smoothed_value c (fst (run st (ev # evs))) - v
          = (smoothed_value c ?st1 - v) * 0.72 ^ frames_processed ?st1 evs"
    unfolding fst_run_Cons by (rule Cons.IH[OF hs f])
  also have "\<dots> = (smoothed_value c st - v)
                     * 0.72 ^ ((if processes st ev then 1 else 0) + frames_processed ?st1 evs)"
    unfolding one by (simp only: power_add mult.assoc)
  finally show ?case by simp
qed

lemma step_held_monotone:
  assumes "held c v ev" and "smoothingFactor st = defaultSmoothingFactor"
  shows "(smoothed_value c st \<le> v \<longrightarrow>
            smoothed_value c st \<le> smoothed_value c (fst (step st ev))
            \<and> smoothed_value c (fst (step st ev)) \<le> v)
       \<and> (v \<le> smoothed_value c st \<longrightarrow>
            v \<le> smoothed_value c (fst (step st ev))
            \<and> smoothed_value c (fst (step st ev)) \<le> smoothed_value c st)"
proof (cases "processes st ev")
  case False
  then show ?thesis by (simp add: step_held(1)[OF assms(1)])
next
  case True
  then have "smoothed_value c (fst (step st ev)) - v = (smoothed_value c st - v) * 0.72"
    by (simp add: step_held(1)[OF assms(1)] assms(2) lerp_step_error)
  then show ?thesis by auto
qed

lemma power_below:
  assumes "0 < eps" and "0 \<le> (d::real)"
  shows "\<exists>N. \<forall>n\<ge>N. d * 0.72 ^ n < eps"
proof (cases "d = 0")
  case True
  with assms show ?thesis by simp
next
  case False
  with assms have pos: "0 < d" by simp
  with assms have "0 < eps / d" by simp
  then obtain N where N: "(0.72::real) ^ N < eps / d"
    using real_arch_pow_inv[of "eps / d" "0.72"] by auto
  have "d * 0.72 ^ n < eps" if "N \<le> n" for n
  proof -
    have "(0.72::real) ^ n \<le> 0.72 ^ N"
      using that by (intro power_decreasing) simp_all
    from this N have "(0.72::real) ^ n < eps / d"
      by (rule le_less_trans)
    with pos show ?thesis
      by (simp add: pos_less_divide_eq mult.commute)
  qed
  then show ?thesis by blast
qed

lemma run_held_converges:
  assumes "0 < eps" and "smoothingFactor st = defaultSmoothingFactor"
  shows "\<exists>N. \<forall>evs. list_all (held c v) evs \<and> N \<le> frames_processed st evs
               \<longrightarrow> \<bar>smoothed_value c (fst (run st evs)) - v\<bar> < eps"
proof -
  from power_below[OF assms(1), of "\<bar>smoothed_value c st - v\<bar>"]
  obtain N where N: "\<forall>n\<ge>N. \<bar>smoothed_value c st - v\<bar> * 0.72 ^ n < eps" by auto
  have "\<bar>smoothed_value c (fst (run st evs)) - v\<bar> < eps"
    if "list_all (held c v) evs" and "N \<le> frames_processed st evs" for evs
    using N that(2) by (simp add: run_held_closed_form[OF that(1) assms(2)] abs_mult)
  then show ?thesis by blast
qed

lemma run_held_factor:
  assumes "list_all (held c v) evs"
  shows "smoothingFactor (fst (run st evs)) = smoothingFactor st"
  using assms
proof (induction evs arbitrary: st)
  case Nil
  show ?case by simp
next
  case (Cons ev evs)
  then have h: "held c v ev" and hs: "list_all (held c v) evs" by simp_all
  show ?case
    unfolding fst_run_Cons by (simp add: Cons.IH[OF hs] step_held(2)[OF h])
qed

lemma held_handFrame: "held Openness (1 / 20) (AnimationFrame (handFrame t))"
  using computeOpenness_pointingHand
  by (simp add: held_def handFrame_def raw_value_def pointingHand_def)

lemma held_holdingTrace: "list_all (held Openness (1 / 20)) (holdingTrace n t)"
  by (induction n t rule: holdingTrace.induct) (simp_all add: held_handFrame)

lemma holding_cycle:
  assumes "scheduled st = [CbProcessFrame]" "model st" "running st" "lastVideoTime st < t"
  shows "processes st (AnimationFrame (handFrame t))"
    and "\<not> processes (fst (step st (AnimationFrame (handFrame t)))) (AnimationFrame (handFrame t))"
    and "scheduled (fst (step (fst (step st (AnimationFrame (handFrame t)))) (AnimationFrame (handFrame t))))
          = [CbProcessFrame]"
    and "model (fst (step (fst (step st (AnimationFrame (handFrame t)))) (AnimationFrame (handFrame t))))"
    and "running (fst (step (fst (step st (AnimationFrame (handFrame t)))) (AnimationFrame (handFrame t))))"
    and "lastVideoTime (fst (step (fst (step st (AnimationFrame (handFrame t)))) (AnimationFrame (handFrame t))))
          = t"
proof -
  have l: "length pointingHand = 21" by (simp add: pointingHand_def)
  have reach: "reaches_detector st (handFrame t)"
    using assms by (simp add: reaches_detector_def handFrame_def)
  then show "processes st (AnimationFrame (handFrame t))" by (simp add: processes_def)
  have s1: "fst (step st (AnimationFrame (handFrame t)))
        = requestAnimationFrame CbLoop
            (fst (analyzeLandmarks (st\<lparr>scheduled := [], lastVideoTime := t\<rparr>) pointingHand pointingHand))"
    using assms(1,2,4)
    by (simp add: step_def processFrame_def Let_def handFrame_def hand_present_def
        drawDetections_well_formed[where lms = pointingHand and others = "[]", OF _ l]
        analyzeLandmarks_well_formed[OF l l computeFingerStates_bendDot[OF l]
          computeOpenness_total[OF l]])
  note a = analyzeLandmarks_well_formed[OF l l computeFingerStates_bendDot[OF l]
          computeOpenness_total[OF l], of "st\<lparr>scheduled := [], lastVideoTime := t\<rparr>"]
  have f1: "scheduled (fst (step st (AnimationFrame (handFrame t)))) = [CbLoop]"
    "model (fst (step st (AnimationFrame (handFrame t))))"
    "running (fst (step st (AnimationFrame (handFrame t))))"
    "lastVideoTime (fst (step st (AnimationFrame (handFrame t)))) = t"
    unfolding s1 a using assms by (simp_all add: requestAnimationFrame_def)
  show "\<not> processes (fst (step st (AnimationFrame (handFrame t)))) (AnimationFrame (handFrame t))"
    by (simp add: processes_def reaches_detector_def f1)
  show "scheduled (fst (step (fst (step st (AnimationFrame (handFrame t)))) (AnimationFrame (handFrame t))))
          = [CbProcessFrame]"
    and "model (fst (step (fst (step st (AnimationFrame (handFrame t)))) (AnimationFrame (handFrame t))))"
    and "running (fst (step (fst (step st (AnimationFrame (handFrame t)))) (AnimationFrame (handFrame t))))"
    and "lastVideoTime (fst (step (fst (step st (AnimationFrame (handFrame t)))) (AnimationFrame (handFrame t))))
          = t"
    by (simp_all add: step_def[of "fst (step st (AnimationFrame (handFrame t)))"] f1 Let_def loop_def
        requestAnimationFrame_def)
qed

lemma frames_processed_holdingTrace:
  assumes "scheduled st = [CbProcessFrame]" "model st" "running st" "lastVideoTime st < t"
  shows "frames_processed st (holdingTrace n t) = n"
  using assms
proof (induction n arbitrary: st t)
  case 0
  show ?case by simp
next
  case (Suc n)
  note c = holding_cycle[OF Suc.prems]
  have "frames_processed
          (fst (step (fst (step st (AnimationFrame (handFrame t)))) (AnimationFrame (handFrame t))))
          (holdingTrace n (t + 1)) = n"
    by (rule Suc.IH[OF c(3,4,5)]) (simp add: c(6))
  then show ?case by (simp add: c(1,2))
qed

text \<open>Rounding to binary64, evaluated at the numbers of the counterexample.\<close>

lemma pow2_powr: "pow2 e = 2 powr (real_of_int e)"
  by (simp add: pow2_def powr_real_of_int inverse_eq_divide)

lemma round_ties_even_near:
  assumes "\<bar>x - real_of_int m\<bar> < 1 / 2"
  shows "round_ties_even x = m"
proof (cases "real_of_int m \<le> x")
  case True
  with assms have "\<lfloor>x\<rfloor> = m" by (intro floor_unique) auto
  with assms True show ?thesis by (simp add: round_ties_even_def Let_def)
next
  case False
  with assms have f: "\<lfloor>x\<rfloor> = m - 1" by (intro floor_unique) auto
  with assms False show ?thesis by (auto simp: round_ties_even_def Let_def)
qed

lemma binary64_normal:
  assumes "0 < x" and "pow2 e \<le> x" and "x < pow2 (e + 1)" and "- 1022 \<le> e"
    and "\<bar>x / pow2 (e - 52) - real_of_int m\<bar> < 1 / 2"
    and "\<bar>real_of_int m * pow2 (e - 52)\<bar> < binary64_huge"
  shows "binary64 x = Some (real_of_int m * pow2 (e - 52))"
proof -
  have "\<lfloor>log 2 x\<rfloor> = e"
    using assms(1,2,3) by (simp add: floor_log_eq_powr_iff pow2_powr)
  then have e: "max \<lfloor>log 2 x\<rfloor> (- 1022) = e"
    using assms(4) by simp
  have x: "\<bar>x\<bar> = x" "x \<noteq> 0" using assms(1) by simp_all
  have r: "round_ties_even (x / pow2 (e - 52)) = m"
    by (rule round_ties_even_near[OF assms(5)])
  show ?thesis
    using assms(6) x(2) unfolding binary64_def Let_def x(1) e r by simp
qed


lemma binary64_smoothingFactor: "binary64 0.28 = Some smoothingFactor64"
proof -
  have "binary64 0.28 = Some (real_of_int 5044031582654956 * pow2 (- 2 - 52))"
    by (rule binary64_normal) (simp_all add: pow2_def binary64_huge_def)
  then show ?thesis by (simp add: smoothingFactor64_def pow2_def)
qed

lemma binary64_one: "binary64 1 = Some 1"
proof -
  have "binary64 1 = Some (real_of_int 4503599627370496 * pow2 (0 - 52))"
    by (rule binary64_normal) (simp_all add: pow2_def binary64_huge_def)
  then show ?thesis by (simp add: pow2_def)
qed

lemma binary64_stalled: "binary64 stalled = Some stalled"
proof -
  have "binary64 stalled = Some (real_of_int 9007199254740991 * pow2 (- 1 - 52))"
    by (rule binary64_normal) (simp_all add: pow2_def binary64_huge_def stalled_def)
  then show ?thesis by (simp add: pow2_def stalled_def)
qed

lemma sub64_stalled: "binary64 (1 - stalled) = Some (1 / 2 ^ 53)"
proof -
  have "binary64 (1 - stalled) = Some (real_of_int 4503599627370496 * pow2 (- 53 - 52))"
    by (rule binary64_normal) (simp_all add: pow2_def binary64_huge_def stalled_def)
  then show ?thesis by (simp add: pow2_def)
qed

lemma mul64_stalled:
  "binary64 (1 / 2 ^ 53 * smoothingFactor64) = Some (smoothingFactor64 / 2 ^ 53)"
proof -
  have "binary64 (1 / 2 ^ 53 * smoothingFactor64)
          = Some (real_of_int 5044031582654956 * pow2 (- 55 - 52))"
    by (rule binary64_normal) (simp_all add: pow2_def binary64_huge_def smoothingFactor64_def)
  then show ?thesis by (simp add: pow2_def smoothingFactor64_def)
qed

lemma add64_stalled: "binary64 (stalled + smoothingFactor64 / 2 ^ 53) = Some stalled"
proof -
  have "binary64 (stalled + smoothingFactor64 / 2 ^ 53)
          = Some (real_of_int 9007199254740991 * pow2 (- 1 - 52))"
    by (rule binary64_normal)
       (simp_all add: pow2_def binary64_huge_def smoothingFactor64_def stalled_def)
  then show ?thesis by (simp add: pow2_def stalled_def)
qed

lemma lerp64_stalled: "lerp64 stalled 1 smoothingFactor64 = Some stalled"
  by (simp only: lerp64_def sub64_stalled mul64_stalled add64_stalled option.case)

lemma lerp64_repeated_stalled: "lerp64_repeated n stalled 1 smoothingFactor64 = Some stalled"
  by (induction n) (simp_all add: lerp64_stalled)

lemma binary64_overflow: "binary64 (- (2 ^ 1023) - 2 ^ 1023) = None"
proof -
  have x: "- (2 ^ 1023) - 2 ^ 1023 = - (2 ^ 1024 :: real)" by simp
  have "\<lfloor>log 2 (2 ^ 1024 :: real)\<rfloor> = 1024"
    by (subst floor_log_eq_powr_iff) (simp_all add: powr_realpow[symmetric] del: powr_numeral)
  then have e: "max \<lfloor>log 2 \<bar>- (2 ^ 1024 :: real)\<bar>\<rfloor> (- 1022) = 1024" by simp
  have u: "- (2 ^ 1024 :: real) / pow2 (1024 - 52) = real_of_int (- (2 ^ 52))"
    by (simp add: pow2_def)
  have r: "round_ties_even (real_of_int (- (2 ^ 52))) = - (2 ^ 52)"
    by (rule round_ties_even_near) simp
  have v: "real_of_int (- (2 ^ 52)) * pow2 (1024 - 52) = - binary64_huge"
    by (simp add: pow2_def binary64_huge_def flip: power_add)
  have nz: "- (2 ^ 1024 :: real) \<noteq> 0" by simp
  show ?thesis
    unfolding x binary64_def Let_def e u r v using nz by (simp add: binary64_huge_def)
qed

text \<open>
  Claim C7 says that under the step \<open>smoothed = smoothed + (v - smoothed) * 0.28\<close>,
  for every start and every held input \<open>v\<close>, the smoothed values move monotonically
  toward \<open>v\<close> without crossing it and come within every \<open>eps > 0\<close> of \<open>v\<close>. In the
  arithmetic of the language this fails: from \<open>1 - 1 / 2 ^ 53\<close>, the largest number
  below 1, with \<open>v = 1\<close>, the step returns its start, so the distance to \<open>v\<close> stays
  \<open>1 / 2 ^ 53\<close> after any number of steps (\<open>lerp64_repeated_stalled\<close>), for instance
  after 1000; and from \<open>2 ^ 1023\<close> with \<open>v = - (2 ^ 1023)\<close>
  the difference overflows and the step yields no finite number.
\<close>

theorem smoothing_binary64_counterexample:
  "binary64 0.28 = Some smoothingFactor64
   \<and> binary64 stalled = Some stalled
   \<and> binary64 1 = Some 1
   \<and> lerp64 stalled 1 smoothingFactor64 = Some stalled
   \<and> lerp64_repeated 1000 stalled 1 smoothingFactor64 = Some stalled
   \<and> \<bar>stalled - 1\<bar> = 1 / 2 ^ 53
   \<and> lerp64 (2 ^ 1023) (- (2 ^ 1023)) smoothingFactor64 = None"
proof -
  have d: "\<bar>stalled - 1\<bar> = 1 / 2 ^ 53"
    by (simp add: stalled_def)
  have o: "lerp64 (2 ^ 1023) (- (2 ^ 1023)) smoothingFactor64 = None"
    by (simp only: lerp64_def binary64_overflow option.case)
  from binary64_smoothingFactor binary64_stalled binary64_one lerp64_stalled
    lerp64_repeated_stalled[of 1000] d o
  show ?thesis by blast
qed

text \<open>
  Claim C7, amended. Read the arithmetic as exact (real numbers) and take a controller
  whose smoothing factor is the default 0.28. Let the raw input of a channel (the
  openness or a coordinate of the position) be held at \<open>v\<close>. Then every event that
  processes a frame replaces the smoothed value \<open>s\<close> of the channel by
  \<open>s + (v - s) * 0.28\<close> and every other event leaves it; each event moves the smoothed
  value monotonically toward \<open>v\<close> and never across it; after a run that processes \<open>k\<close>
  frames the distance to \<open>v\<close> is the initial distance times \<open>0.72 ^ k\<close>; and for every
  \<open>eps > 0\<close> there is a number \<open>N\<close> such that after every run that processes at least
  \<open>N\<close> frames the smoothed value is within \<open>eps\<close> of \<open>v\<close>. In the binary64 arithmetic
  of the language the values can stop short of \<open>v\<close>, as the counterexample shows.
\<close>

theorem smoothing_of_held_input:
  assumes "smoothingFactor st = defaultSmoothingFactor"
  shows "(held c v ev \<longrightarrow>
            (processes st ev \<longrightarrow>
               smoothed_value c (fst (step st ev))
                 = smoothed_value c st + (v - smoothed_value c st) * 0.28)
          \<and> (\<not> processes st ev \<longrightarrow>
               smoothed_value c (fst (step st ev)) = smoothed_value c st)
          \<and> (smoothed_value c st \<le> v \<longrightarrow>
               smoothed_value c st \<le> smoothed_value c (fst (step st ev))
               \<and> smoothed_value c (fst (step st ev)) \<le> v)
          \<and> (v \<le> smoothed_value c st \<longrightarrow>
               v \<le> smoothed_value c (fst (step st ev))
               \<and> smoothed_value c (fst (step st ev)) \<le> smoothed_value c st)
          \<and> smoothingFactor (fst (step st ev)) = defaultSmoothingFactor)
       \<and> (list_all (held c v) evs \<longrightarrow>
            smoothed_value c (fst (run st evs)) - v
              = (smoothed_value c st - v) * 0.72 ^ frames_processed st evs
          \<and> smoothingFactor (fst (run st evs)) = defaultSmoothingFactor)
       \<and> (\<forall>eps>0. \<exists>N. \<forall>evs.
              list_all (held c v) evs \<and> N \<le> frames_processed st evs
              \<longrightarrow> \<bar>smoothed_value c (fst (run st evs)) - v\<bar> < eps)"
proof (intro conjI impI allI)
  assume h: "held c v ev"
  {
    assume "processes st ev"
    then show "smoothed_value c (fst (step st ev))
                 = smoothed_value c st + (v - smoothed_value c st) * 0.28"
      by (simp add: step_held(1)[OF h] assms lerp_def defaultSmoothingFactor_def)
  }
  {
    assume "\<not> processes st ev"
    then show "smoothed_value c (fst (step st ev)) = smoothed_value c st"
      by (simp add: step_held(1)[OF h])
  }
  note m = step_held_monotone[OF h assms]
  {
    assume "smoothed_value c st \<le> v"
    with m show "smoothed_value c st \<le> smoothed_value c (fst (step st ev))"
      and "smoothed_value c (fst (step st ev)) \<le> v" by blast+
  }
  {
    assume "v \<le> smoothed_value c st"
    with m show "v \<le> smoothed_value c (fst (step st ev))"
      and "smoothed_value c (fst (step st ev)) \<le> smoothed_value c st" by blast+
  }
  show "smoothingFactor (fst (step st ev)) = defaultSmoothingFactor"
    by (simp add: step_held(2)[OF h] assms)
next
  assume hs: "list_all (held c v) evs"
  show "smoothed_value c (fst (run st evs)) - v
          = (smoothed_value c st - v) * 0.72 ^ frames_processed st evs"
    by (rule run_held_closed_form[OF hs assms])
  show "smoothingFactor (fst (run st evs)) = defaultSmoothingFactor"
    by (simp add: run_held_factor[OF hs] assms)
next
  fix eps :: real
  assume "0 < eps"
  then show "\<exists>N. \<forall>evs. list_all (held c v) evs \<and> N \<le> frames_processed st evs
               \<longrightarrow> \<bar>smoothed_value c (fst (run st evs)) - v\<bar> < eps"
    by (rule run_held_converges[OF _ assms])
qed

theorem smoothing_of_held_input_witness:
  "smoothingFactor startedController = defaultSmoothingFactor
   \<and> held Openness (1 / 20) (AnimationFrame (handFrame 0))
   \<and> processes startedController (AnimationFrame (handFrame 0))
   \<and> smoothed_value Openness startedController = 0
   \<and> smoothed_value Openness (fst (step startedController (AnimationFrame (handFrame 0)))) = 0.014
   \<and> list_all (held Openness (1 / 20)) (holdingTrace 3 0)
   \<and> frames_processed startedController (holdingTrace 3 0) = 3
   \<and> smoothed_value Openness (fst (run startedController (holdingTrace 3 0))) = 0.03133760
   \<and> (0::real) < 1 / 1000
   \<and> (\<exists>N. \<forall>evs. list_all (held Openness (1 / 20)) evs
              \<and> N \<le> frames_processed startedController evs
              \<longrightarrow> \<bar>smoothed_value Openness (fst (run startedController evs)) - 1 / 20\<bar> < 1 / 1000)"
proof -
  have f: "smoothingFactor startedController = defaultSmoothingFactor"
    by (simp add: startedController_eq)
  have z: "smoothed_value Openness startedController = 0"
    by (simp add: smoothed_value_def startedController_eq)
  have p: "processes startedController (AnimationFrame (handFrame 0))"
    by (simp add: processes_def reaches_detector_def startedController_eq handFrame_def)
  have k: "frames_processed startedController (holdingTrace 3 0) = 3"
    by (rule frames_processed_holdingTrace) (simp_all add: startedController_eq)
  have e: "(0::real) < 1 / 1000" by simp
  note one = smoothing_of_held_input
      [OF f, of Openness "1 / 20" "AnimationFrame (handFrame 0)" "holdingTrace 3 0"]
  from one held_handFrame[of 0] p
  have "smoothed_value Openness (fst (step startedController (AnimationFrame (handFrame 0))))
          = smoothed_value Openness startedController
            + (1 / 20 - smoothed_value Openness startedController) * 0.28"
    by blast
  then have s1: "smoothed_value Openness (fst (step startedController (AnimationFrame (handFrame 0))))
          = 0.014"
    by (simp add: z)
  from one held_holdingTrace[of 3 0]
  have "smoothed_value Openness (fst (run startedController (holdingTrace 3 0))) - 1 / 20
          = (smoothed_value Openness startedController - 1 / 20)
            * 0.72 ^ frames_processed startedController (holdingTrace 3 0)"
    by blast
  then have s3: "smoothed_value Openness (fst (run startedController (holdingTrace 3 0)))
          = 0.03133760"
    by (simp add: z k power3_eq_cube)
  from one e
  have c: "\<exists>N. \<forall>evs. list_all (held Openness (1 / 20)) evs
              \<and> N \<le> frames_processed startedController evs
              \<longrightarrow> \<bar>smoothed_value Openness (fst (run startedController evs)) - 1 / 20\<bar> < 1 / 1000"
    by blast
  from f held_handFrame[of 0] p z s1 held_holdingTrace[of 3 0] k s3 e c
  show ?thesis by blast
qed

section \<open>Event listeners: properties\<close>

lemma Set_values_append: "Set_values (xs @ ys) = Set_values xs @ Set_values ys"
  by (induction xs rule: Set_values.induct) simp_all

lemma set_Set_values: "set (Set_values es) = {h. Some h \<in> set es}"
  by (induction es rule: Set_values.induct) auto

lemma Set_values_add:
  "Set_values (Set_add es h) = (if h \<in> set (Set_values es) then Set_values es else Set_values es @ [h])"
  by (simp add: Set_add_def set_Set_values Set_values_append)

lemma Set_values_delete: "Set_values (Set_delete es h) = removeAll h (Set_values es)"
  by (induction es rule: Set_values.induct) (auto simp: Set_delete_def)

lemma Set_delete_absent: "Some h \<notin> set es \<Longrightarrow> Set_delete es h = es"
  by (induction es) (auto simp: Set_delete_def)

lemma Set_delete_append: "Set_delete (xs @ ys) h = Set_delete xs h @ Set_delete ys h"
  by (simp add: Set_delete_def)

lemma Set_delete_idem: "Set_delete (Set_delete es h) h = Set_delete es h"
  by (induction es) (simp_all add: Set_delete_def)

lemma Set_delete_Cons:
  "Set_delete (e # es) h = (if e = Some h then None else e) # Set_delete es h"
  by (simp add: Set_delete_def)

lemma length_Set_delete: "length (Set_delete es h) = length es"
  by (simp add: Set_delete_def)

lemma subscribers_on:
  "subscribers (on ls e h) event =
     (if e = event \<and> h \<notin> set (subscribers ls event) then subscribers ls event @ [h]
      else subscribers ls event)"
  by (auto simp: subscribers_def on_def Let_def Set_values_add split: option.splits)

lemma subscribers_off:
  "subscribers (off ls e h) event =
     (if e = event then removeAll h (subscribers ls event) else subscribers ls event)"
  by (auto simp: subscribers_def off_def Set_values_delete split: option.splits)

lemma subscribers_perform:
  "subscribers (perform ls cs) event = registration_order (subscribers ls event) cs event"
  by (induction ls cs rule: perform.induct) (simp_all add: subscribers_on subscribers_off)

lemma distinct_registration_order:
  "distinct hs \<Longrightarrow> distinct (registration_order hs cs event)"
  by (induction hs cs event rule: registration_order.induct) (simp_all add: distinct_removeAll)

lemma perform_self_removal:
  assumes "\<forall>c \<in> set cs. \<exists>e. c = Off e h" and "ls event = Some entries"
  shows "perform ls cs event = Some entries \<or> perform ls cs event = Some (Set_delete entries h)"
  using assms
proof (induction cs arbitrary: ls entries)
  case Nil
  then show ?case by simp
next
  case (Cons c cs)
  then obtain e where c: "c = Off e h" by auto
  from Cons.prems have rest: "\<forall>c \<in> set cs. \<exists>e. c = Off e h" by simp
  show ?case
  proof (cases "e = event")
    case True
    then have "off ls e h event = Some (Set_delete entries h)"
      using Cons.prems(2) by (simp add: off_def)
    with Cons.IH[of "off ls e h" "Set_delete entries h"] rest show ?thesis
      by (simp add: c Set_delete_idem)
  next
    case False
    then have "off ls e h event = Some entries"
      using Cons.prems(2) by (simp add: off_def split: option.splits)
    with Cons.IH[of "off ls e h" entries] rest show ?thesis by (simp add: c)
  qed
qed

lemma forEach_suffix:
  assumes "ls event = Some (pre @ post)" and "index = length pre"
    and "distinct (Set_values post)"
    and "\<forall>h \<in> set (Set_values post). self_removal_only behaviour payload h"
  shows "\<exists>ls'. forEach behaviour event payload ls index invoked = Some (ls', invoked @ Set_values post)"
  using assms
proof (induction post arbitrary: ls pre index invoked)
  case Nil
  then show ?case by (subst forEach.simps) simp
next
  case (Cons slot post)
  have idx: "index < length (pre @ slot # post)" using Cons.prems(2) by simp
  have nth: "(pre @ slot # post) ! index = slot" using Cons.prems(2) by simp
  show ?case
  proof (cases slot)
    case None
    have next_table: "ls event = Some ((pre @ [None]) @ post)" using Cons.prems(1) None by simp
    have "\<exists>ls'. forEach behaviour event payload ls (index + 1) invoked
             = Some (ls', invoked @ Set_values post)"
      using Cons.prems(2,3,4) None next_table
      by (intro Cons.IH[where pre = "pre @ [None]"]) simp_all
    then show ?thesis
      using Cons.prems(1) idx nth None by (subst forEach.simps) simp
  next
    case (Some h)
    let ?ls1 = "perform ls (behaviour h payload)"
    from Cons.prems(3) Some have fresh: "Some h \<notin> set post"
      by (simp add: set_Set_values)
    from Cons.prems(4) Some have "\<forall>c \<in> set (behaviour h payload). \<exists>e. c = Off e h"
      by (simp add: self_removal_only_def)
    from perform_self_removal[where ls = ls and entries = "pre @ slot # post", OF this Cons.prems(1)]
    have "?ls1 event = Some (pre @ Some h # post) \<or> ?ls1 event = Some (Set_delete pre h @ None # post)"
      by (simp add: Some Set_delete_append Set_delete_Cons Set_delete_absent[OF fresh])
    then obtain pre1 where next_table: "?ls1 event = Some (pre1 @ post)"
      and len1: "index + 1 = length pre1"
    proof
      assume "?ls1 event = Some (pre @ Some h # post)"
      then have "?ls1 event = Some ((pre @ [Some h]) @ post)" by simp
      moreover have "index + 1 = length (pre @ [Some h])" using Cons.prems(2) by simp
      ultimately show ?thesis by (rule that)
    next
      assume "?ls1 event = Some (Set_delete pre h @ None # post)"
      then have "?ls1 event = Some ((Set_delete pre h @ [None]) @ post)" by simp
      moreover have "index + 1 = length (Set_delete pre h @ [None])"
        using Cons.prems(2) by (simp add: length_Set_delete)
      ultimately show ?thesis by (rule that)
    qed
    have "\<exists>ls'. forEach behaviour event payload ?ls1 (index + 1) (invoked @ [h])
             = Some (ls', (invoked @ [h]) @ Set_values post)"
      using Cons.prems(3,4) Some next_table len1
      by (intro Cons.IH[where pre = pre1]) simp_all
    then show ?thesis
      using Cons.prems(1) idx nth Some by (subst forEach.simps) simp
  qed
qed

lemma emit_invokes_subscribers:
  assumes "distinct (subscribers ls event)"
    and "\<forall>h \<in> set (subscribers ls event). self_removal_only behaviour payload h"
  shows "\<exists>ls'. emit behaviour ls event payload = Some (ls', subscribers ls event)"
proof (cases "ls event")
  case None
  then show ?thesis by (simp add: emit_def subscribers_def)
next
  case (Some entries)
  then have "ls event = Some ([] @ entries)" by simp
  from forEach_suffix[where ls = ls and pre = "[]" and post = entries and index = 0
        and behaviour = behaviour and payload = payload and invoked = "[]" and event = event]
    this assms Some
  show ?thesis by (simp add: emit_def subscribers_def)
qed

text \<open>
  Claim C9. Let the listener table be the result of any history of \<open>on\<close> and \<open>off\<close>
  calls on a new controller, and let every handler registered for an event either leave
  the table alone or unregister itself when it is invoked. Then \<open>_emit\<close> of that event
  returns, having invoked every handler registered for the event exactly once, in the
  order of registration (a repeated registration counts once): a handler that
  unregisters itself during its invocation does not keep the later ones from being
  invoked.
\<close>

theorem emit_in_registration_order:
  assumes "\<forall>h \<in> set (registration_order [] history event). self_removal_only behaviour payload h"
  shows "(\<exists>ls'. emit behaviour (perform Map.empty history) event payload
                  = Some (ls', registration_order [] history event))
         \<and> distinct (registration_order [] history event)"
proof -
  have sub: "subscribers (perform Map.empty history) event = registration_order [] history event"
    by (simp add: subscribers_perform) (simp add: subscribers_def)
  have dist: "distinct (registration_order [] history event)"
    by (rule distinct_registration_order) simp
  from emit_invokes_subscribers[of "perform Map.empty history" event behaviour payload]
  show ?thesis using assms dist by (simp add: sub)
qed

theorem emit_in_registration_order_witness:
  "registration_order [] exampleHistory ''update'' = [1, 2, 3]
   \<and> self_removal_only exampleBehaviour () 1
   \<and> self_removal_only exampleBehaviour () 2
   \<and> self_removal_only exampleBehaviour () 3
   \<and> exampleBehaviour 2 () = [Off ''update'' 2]
   \<and> (\<exists>ls'. emit exampleBehaviour (perform Map.empty exampleHistory) ''update'' ()
               = Some (ls', [1, 2, 3]))"
proof -
  have r: "registration_order [] exampleHistory ''update'' = [1, 2, 3]"
    by (simp add: exampleHistory_def)
  have s: "self_removal_only exampleBehaviour () 1" "self_removal_only exampleBehaviour () 2"
    "self_removal_only exampleBehaviour () 3"
    by (simp_all add: self_removal_only_def exampleBehaviour_def)
  have b: "exampleBehaviour 2 () = [Off ''update'' 2]"
    by (simp add: exampleBehaviour_def)
  from s have "\<forall>h \<in> set (registration_order [] exampleHistory ''update'').
                 self_removal_only exampleBehaviour () h"
    by (simp add: r)
  from emit_in_registration_order[OF this]
  have "\<exists>ls'. emit exampleBehaviour (perform Map.empty exampleHistory) ''update'' ()
               = Some (ls', [1, 2, 3])"
    by (simp add: r)
  with r s b show ?thesis by blast
qed

lemma emit_example_table:
  "emit exampleBehaviour (perform Map.empty exampleHistory) ''update'' ()
     = Some ((perform Map.empty exampleHistory)(''update'' \<mapsto> [Some 1, None, Some 3]), [1, 2, 3])"
  by (simp add: emit_def forEach.simps exampleHistory_def exampleBehaviour_def on_def off_def
      Set_add_def Set_delete_def Let_def)

section \<open>Highlighting: properties\<close>

lemma marked_clearHighlight:
  "marked (clearHighlight sf) i = (marked sf i \<and> highlighted sf \<noteq> Some i)"
  by (auto simp: clearHighlight_def marked_def Let_def split: option.splits)

lemma highlighted_clearHighlight: "highlighted (clearHighlight sf) = None"
  by (simp add: clearHighlight_def Let_def split: option.splits)

lemma marker_inv_clearHighlight: "marker_inv sf \<Longrightarrow> marker_inv (clearHighlight sf)"
  by (auto simp: marker_inv_def marked_clearHighlight)

lemma marked_highlight_Some:
  "marked (highlight setHex sf (Some obj)) i =
     (i = obj \<or> marked (if highlighted sf \<noteq> None \<and> highlighted sf \<noteq> Some obj then clearHighlight sf else sf) i)"
  by (simp add: highlight_def marked_def Let_def split: option.splits)

lemma highlighted_highlight_Some: "highlighted (highlight setHex sf (Some obj)) = Some obj"
  by (simp add: highlight_def Let_def split: option.splits)

lemma marker_inv_highlight: "marker_inv sf \<Longrightarrow> marker_inv (highlight setHex sf object)"
proof (cases object)
  case None
  assume "marker_inv sf"
  then show ?thesis using None by (simp add: highlight_def marker_inv_clearHighlight)
next
  case (Some obj)
  assume inv: "marker_inv sf"
  show ?thesis
    unfolding marker_inv_def Some highlighted_highlight_Some marked_highlight_Some
    using inv by (auto simp: marker_inv_def marked_clearHighlight)
qed

lemma marker_inv_calls: "marker_inv sf \<Longrightarrow> marker_inv (highlight_calls setHex sf cs)"
proof (induction cs arbitrary: sf)
  case Nil
  then show ?case by simp
next
  case (Cons c cs)
  then show ?case
    by (cases c) (simp_all add: marker_inv_highlight marker_inv_clearHighlight)
qed

lemma freshly_built_inv: "freshly_built sf \<Longrightarrow> marker_inv sf"
  by (simp add: freshly_built_def marker_inv_def marked_def)

text \<open>
  Claim C2 says that \<open>highlight\<close> of the mesh that is already highlighted changes
  nothing. On the sample scene the first call scales mesh 0 from 1 to 1.3 and makes it
  the highlighted mesh; the second call, on the same mesh, leaves the materials as they
  are but multiplies the scale again, to 1.69.
\<close>

theorem highlight_twice_multiplies_scale_twice:
  "highlighted (highlight exampleSetHex exampleStarfield (Some 0)) = Some 0
   \<and> mesh_scale (objects (highlight exampleSetHex exampleStarfield (Some 0)) 0) = (1.3, 1.3, 1.3)
   \<and> mesh_scale (objects (highlight exampleSetHex
                             (highlight exampleSetHex exampleStarfield (Some 0)) (Some 0)) 0)
       = (1.69, 1.69, 1.69)
   \<and> materials (highlight exampleSetHex (highlight exampleSetHex exampleStarfield (Some 0)) (Some 0))
       = materials (highlight exampleSetHex exampleStarfield (Some 0))"
  by (simp add: highlight_def exampleStarfield_def exampleMesh_def multiplyScalar_def Let_def)

lemma highlight_after_clear:
  assumes "highlighted sf = Some p" "p \<noteq> obj"
  shows "highlight setHex sf (Some obj) = highlight setHex (clearHighlight sf) (Some obj)"
  using assms by (simp add: highlight_def highlighted_clearHighlight)

lemma clearHighlight_restores:
  assumes "highlighted sf = Some p"
    and "mesh_material (objects sf p) = Some m"
    and "baseEmissive (mesh_userData (objects sf p)) = Some be"
    and "baseEmissiveIntensity (mesh_userData (objects sf p)) = Some bi"
    and "baseScale (mesh_userData (objects sf p)) = Some bs"
  shows "emissive (materials (clearHighlight sf) m) = be"
    and "emissiveIntensity (materials (clearHighlight sf) m) = bi"
    and "mesh_scale (objects (clearHighlight sf) p) = bs"
    and "\<not> marked (clearHighlight sf) p"
    and "\<forall>i. mesh_material (objects (clearHighlight sf) i) = mesh_material (objects sf i)"
  using assms by (simp_all add: clearHighlight_def marked_def Let_def)

lemma highlight_fresh_other:
  assumes "highlighted sf = None" "p \<noteq> obj"
  shows "mesh_scale (objects (highlight setHex sf (Some obj)) p) = mesh_scale (objects sf p)"
    and "marked (highlight setHex sf (Some obj)) p = marked sf p"
    and "mesh_material (objects sf obj) \<noteq> Some m \<Longrightarrow>
           materials (highlight setHex sf (Some obj)) m = materials sf m"
  using assms by (simp_all add: highlight_def marked_def Let_def split: option.splits)

text \<open>
  Claim C6. After any sequence of \<open>highlight\<close> and \<open>clearHighlight\<close> calls on a
  \<open>Starfield\<close> as built, at most one mesh carries the \<open>isHighlighted\<close> marker. When
  \<open>highlight\<close> is called with a mesh other than the highlighted mesh \<open>p\<close>, the call is
  \<open>clearHighlight\<close> followed by the highlight of the new mesh on a scene with nothing
  highlighted: after the clearing the emissive colour and intensity of the material of
  \<open>p\<close> and the scale of \<open>p\<close> have their saved base values and \<open>p\<close> has no marker; scale
  and marker of \<open>p\<close> are still so after the whole call, and so is its material unless the
  new mesh shares it.
\<close>

theorem highlight_single_marker_and_restore:
  "(freshly_built sf \<longrightarrow>
      (\<forall>i j. marked (highlight_calls setHex sf cs) i \<and> marked (highlight_calls setHex sf cs) j
              \<longrightarrow> i = j))
   \<and> (highlighted sf = Some p \<and> p \<noteq> obj
        \<and> mesh_material (objects sf p) = Some m
        \<and> baseEmissive (mesh_userData (objects sf p)) = Some be
        \<and> baseEmissiveIntensity (mesh_userData (objects sf p)) = Some bi
        \<and> baseScale (mesh_userData (objects sf p)) = Some bs \<longrightarrow>
      highlight setHex sf (Some obj) = highlight setHex (clearHighlight sf) (Some obj)
      \<and> highlighted (clearHighlight sf) = None
      \<and> emissive (materials (clearHighlight sf) m) = be
      \<and> emissiveIntensity (materials (clearHighlight sf) m) = bi
      \<and> mesh_scale (objects (clearHighlight sf) p) = bs
      \<and> \<not> marked (clearHighlight sf) p
      \<and> mesh_scale (objects (highlight setHex sf (Some obj)) p) = bs
      \<and> \<not> marked (highlight setHex sf (Some obj)) p
      \<and> (mesh_material (objects sf obj) \<noteq> Some m \<longrightarrow>
            emissive (materials (highlight setHex sf (Some obj)) m) = be
            \<and> emissiveIntensity (materials (highlight setHex sf (Some obj)) m) = bi))"
proof (intro conjI impI allI)
  fix i j
  assume "freshly_built sf"
    and "marked (highlight_calls setHex sf cs) i \<and> marked (highlight_calls setHex sf cs) j"
  with marker_inv_calls[OF freshly_built_inv, of sf setHex cs]
  have "highlighted (highlight_calls setHex sf cs) = Some i"
    and "highlighted (highlight_calls setHex sf cs) = Some j"
    by (simp_all add: marker_inv_def)
  then show "i = j" by simp
next
  assume a: "highlighted sf = Some p \<and> p \<noteq> obj
        \<and> mesh_material (objects sf p) = Some m
        \<and> baseEmissive (mesh_userData (objects sf p)) = Some be
        \<and> baseEmissiveIntensity (mesh_userData (objects sf p)) = Some bi
        \<and> baseScale (mesh_userData (objects sf p)) = Some bs"
  then have h: "highlighted sf = Some p" and ne: "p \<noteq> obj"
    and m: "mesh_material (objects sf p) = Some m"
    and be: "baseEmissive (mesh_userData (objects sf p)) = Some be"
    and bi: "baseEmissiveIntensity (mesh_userData (objects sf p)) = Some bi"
    and bs: "baseScale (mesh_userData (objects sf p)) = Some bs"
    by simp_all
  note r = clearHighlight_restores[OF h m be bi bs]
  note step = highlight_after_clear[OF h ne, of setHex]
  note o = highlight_fresh_other[where sf = "clearHighlight sf" and setHex = setHex,
      OF highlighted_clearHighlight ne]
  show "highlight setHex sf (Some obj) = highlight setHex (clearHighlight sf) (Some obj)"
    by (rule step)
  show "highlighted (clearHighlight sf) = None" by (rule highlighted_clearHighlight)
  show "emissive (materials (clearHighlight sf) m) = be" by (rule r(1))
  show "emissiveIntensity (materials (clearHighlight sf) m) = bi" by (rule r(2))
  show "mesh_scale (objects (clearHighlight sf) p) = bs" by (rule r(3))
  show "\<not> marked (clearHighlight sf) p" by (rule r(4))
  show "mesh_scale (objects (highlight setHex sf (Some obj)) p) = bs"
    unfolding step o(1) by (rule r(3))
  show "\<not> marked (highlight setHex sf (Some obj)) p"
    unfolding step o(2) by (rule r(4))
  assume nm: "mesh_material (objects sf obj) \<noteq> Some m"
  then have nm': "mesh_material (objects (clearHighlight sf) obj) \<noteq> Some m"
    using r(5) by simp
  show "emissive (materials (highlight setHex sf (Some obj)) m) = be"
    unfolding step o(3)[OF nm'] by (rule r(1))
  show "emissiveIntensity (materials (highlight setHex sf (Some obj)) m) = bi"
    unfolding step o(3)[OF nm'] by (rule r(2))
qed

lemma freshly_built_example: "freshly_built exampleStarfield"
  by (simp add: freshly_built_def exampleStarfield_def exampleMesh_def)

lemma highlightedStarfield_facts:
  "highlighted highlightedStarfield = Some 0"
  "mesh_material (objects highlightedStarfield 0) = Some 0"
  "baseEmissive (mesh_userData (objects highlightedStarfield 0)) = Some (0, 0, 1)"
  "baseEmissiveIntensity (mesh_userData (objects highlightedStarfield 0)) = Some 1.05"
  "baseScale (mesh_userData (objects highlightedStarfield 0)) = Some (1, 1, 1)"
  "mesh_material (objects highlightedStarfield 1) \<noteq> Some 0"
  "mesh_scale (objects highlightedStarfield 0) = (1.3, 1.3, 1.3)"
  "marked highlightedStarfield 0"
  by (simp_all add: highlightedStarfield_def highlight_def exampleStarfield_def exampleMesh_def
      multiplyScalar_def marked_def Let_def)

lemma marked_after_exampleCalls:
  "marked (highlight_calls exampleSetHex exampleStarfield exampleCalls) 2"
  by (simp add: exampleCalls_def highlight_def clearHighlight_def exampleStarfield_def
      exampleMesh_def marked_def Let_def)

theorem highlight_single_marker_and_restore_witness:
  "freshly_built exampleStarfield
   \<and> marked (highlight_calls exampleSetHex exampleStarfield exampleCalls) 2
   \<and> \<not> marked (highlight_calls exampleSetHex exampleStarfield exampleCalls) 0
   \<and> \<not> marked (highlight_calls exampleSetHex exampleStarfield exampleCalls) 1
   \<and> highlighted highlightedStarfield = Some 0 \<and> (0::nat) \<noteq> 1
   \<and> mesh_material (objects highlightedStarfield 0) = Some 0
   \<and> baseEmissive (mesh_userData (objects highlightedStarfield 0)) = Some (0, 0, 1)
   \<and> baseEmissiveIntensity (mesh_userData (objects highlightedStarfield 0)) = Some 1.05
   \<and> baseScale (mesh_userData (objects highlightedStarfield 0)) = Some (1, 1, 1)
   \<and> mesh_scale (objects highlightedStarfield 0) = (1.3, 1.3, 1.3)
   \<and> marked highlightedStarfield 0
   \<and> mesh_scale (objects (highlight exampleSetHex highlightedStarfield (Some 1)) 0) = (1, 1, 1)
   \<and> \<not> marked (highlight exampleSetHex highlightedStarfield (Some 1)) 0
   \<and> mesh_material (objects highlightedStarfield 1) \<noteq> Some 0
   \<and> emissive (materials (highlight exampleSetHex highlightedStarfield (Some 1)) 0) = (0, 0, 1)
   \<and> emissiveIntensity (materials (highlight exampleSetHex highlightedStarfield (Some 1)) 0) = 1.05"
proof -
  note f = highlightedStarfield_facts
  have ne: "(0::nat) \<noteq> 1" by simp
  note one = highlight_single_marker_and_restore
      [of exampleStarfield exampleSetHex exampleCalls, THEN conjunct1, THEN mp,
       OF freshly_built_example, rule_format]
  have m0: "\<not> marked (highlight_calls exampleSetHex exampleStarfield exampleCalls) 0"
    using one[of 0 2] marked_after_exampleCalls by auto
  have m1: "\<not> marked (highlight_calls exampleSetHex exampleStarfield exampleCalls) 1"
    using one[of 1 2] marked_after_exampleCalls by auto
  have hyp: "highlighted highlightedStarfield = Some 0 \<and> (0::nat) \<noteq> 1
        \<and> mesh_material (objects highlightedStarfield 0) = Some 0
        \<and> baseEmissive (mesh_userData (objects highlightedStarfield 0)) = Some (0, 0, 1)
        \<and> baseEmissiveIntensity (mesh_userData (objects highlightedStarfield 0)) = Some 1.05
        \<and> baseScale (mesh_userData (objects highlightedStarfield 0)) = Some (1, 1, 1)"
    using f(1-5) ne by simp
  note two = highlight_single_marker_and_restore
      [of highlightedStarfield exampleSetHex exampleCalls 0 1 0 "(0, 0, 1)" "1.05" "(1, 1, 1)",
       THEN conjunct2, THEN mp, OF hyp]
  from two f(6)
  have c: "mesh_scale (objects (highlight exampleSetHex highlightedStarfield (Some 1)) 0) = (1, 1, 1)"
    "\<not> marked (highlight exampleSetHex highlightedStarfield (Some 1)) 0"
    "emissive (materials (highlight exampleSetHex highlightedStarfield (Some 1)) 0) = (0, 0, 1)"
    "emissiveIntensity (materials (highlight exampleSetHex highlightedStarfield (Some 1)) 0) = 1.05"
    by blast+
  show ?thesis
    using freshly_built_example marked_after_exampleCalls m0 m1 f ne c by simp
qed


end
